theory Spec2Isabelle
  imports Main "HOL-Library.Word"
begin

unbundle bit_operations_syntax

section \<open>betterbanish: model of \<^verbatim>\<open>src/betterbanish.c\<close>\<close>

text \<open>
  The program hides the X11 mouse cursor while the user types and shows it again on
  pointer activity. This theory embeds its option handling, device registry, modifier
  filter and the hide/show state machine, and checks the specification's claims on them.

  Conventions of the embedding:
  \<^item> a C \<^verbatim>\<open>int\<close> or \<^verbatim>\<open>unsigned int\<close> is a \<open>32 word\<close>; signed comparisons read it with
    \<open>sint\<close> (\<open><s\<close>, \<open>\<le>s\<close>), arithmetic wraps around;
  \<^item> an \<^verbatim>\<open>int\<close> that the program only uses as a flag (\<^verbatim>\<open>hiding\<close>, \<^verbatim>\<open>always_hide\<close>,
    \<^verbatim>\<open>ignore_scroll\<close>, \<^verbatim>\<open>debug\<close>) is a \<open>bool\<close>;
  \<^item> a C string is a \<open>string\<close> without NUL bytes, so \<^verbatim>\<open>strcmp(a, b) == 0\<close> is \<open>a = b\<close>;
  \<^item> the global variables are the fields of one record, passed through every function;
  \<^item> every Xlib call the program makes is appended to the field \<open>xlog\<close>, in order;
  \<^item> what the X server, the C library and the kernel answer is an argument of the model;
  \<^item> the trace output (\<^verbatim>\<open>DPRINTF\<close>) and the warnings are left out.
\<close>

subsection \<open>Constants of the system headers\<close>

text \<open>Modifier masks of \<^verbatim>\<open>X11/X.h\<close>.\<close>

definition ShiftMask :: "32 word" where "ShiftMask = 1"
definition LockMask :: "32 word" where "LockMask = 2"
definition ControlMask :: "32 word" where "ControlMask = 4"
definition Mod1Mask :: "32 word" where "Mod1Mask = 8"
definition Mod2Mask :: "32 word" where "Mod2Mask = 16"
definition Mod3Mask :: "32 word" where "Mod3Mask = 32"
definition Mod4Mask :: "32 word" where "Mod4Mask = 64"
definition Mod5Mask :: "32 word" where "Mod5Mask = 128"

text \<open>Result bits of \<^verbatim>\<open>XParseGeometry\<close> (\<^verbatim>\<open>X11/Xutil.h\<close>).\<close>

definition XValue :: "32 word" where "XValue = 1"
definition YValue :: "32 word" where "YValue = 2"
definition XNegative :: "32 word" where "XNegative = 16"
definition YNegative :: "32 word" where "YNegative = 32"

text \<open>Event types and key codes of \<^verbatim>\<open>linux/input-event-codes.h\<close>.\<close>

definition EV_KEY :: nat where "EV_KEY = 1"
definition EV_REL :: nat where "EV_REL = 2"
definition EV_ABS :: nat where "EV_ABS = 3"
definition EV_MAX :: nat where "EV_MAX = 31"
definition KEY_MAX :: nat where "KEY_MAX = 767"
definition KEY_SPACE :: nat where "KEY_SPACE = 57"
definition BTN_MOUSE :: nat where "BTN_MOUSE = 272"
definition BTN_TOUCH :: nat where "BTN_TOUCH = 330"

definition MAX_INPUT_DEVICES :: nat where "MAX_INPUT_DEVICES = 64"

subsection \<open>Strings\<close>

text \<open>\<^verbatim>\<open>tolower\<close> in the C locale (the program never calls \<^verbatim>\<open>setlocale\<close>).\<close>

definition tolower :: "char \<Rightarrow> char" where
  "tolower c = (let n = (of_char c :: nat) in
                if 65 \<le> n \<and> n \<le> 90 then char_of (n + 32) else c)"

text \<open>\<open>strcasecmp_eq a b\<close> is \<^verbatim>\<open>strcasecmp(a, b) == 0\<close>.\<close>

definition strcasecmp_eq :: "string \<Rightarrow> string \<Rightarrow> bool" where
  "strcasecmp_eq a b = (map tolower a = map tolower b)"

subsection \<open>Program state\<close>

datatype move_types =
    MOVE_NW | MOVE_NE | MOVE_SW | MOVE_SE
  | MOVE_WIN_NW | MOVE_WIN_NE | MOVE_WIN_SW | MOVE_WIN_SE
  | MOVE_CUSTOM

text \<open>
  An entry of \<^verbatim>\<open>mod_map\<close>. The fields \<^verbatim>\<open>name\<close> and \<^verbatim>\<open>mask\<close> carry a prefix here; the array
  \<^verbatim>\<open>keycodes\<close> with its length \<^verbatim>\<open>keycode_count\<close> is a list.
\<close>

record mod_map_entry =
  mod_name :: string
  mod_mask :: "32 word"
  keycodes :: "8 word list"

text \<open>
  The requests sent to the X server. \<open>XSyncCreateAlarm\<close> carries the low and the high
  half of the wait value.
\<close>

datatype xcall =
    XQueryPointer
  | XGetWindowAttributes nat
  | XWarpPointer "32 word" "32 word"
  | XFixesHideCursor
  | XFixesShowCursor
  | XFlush
  | XQueryKeymap
  | XSyncQueryCounter nat
  | XSyncDestroyAlarm nat
  | XSyncCreateAlarm nat "32 word" "32 word"

text \<open>
  The globals. \<open>move = None\<close> is \<^verbatim>\<open>move == 0\<close>. An array of devices with its counter
  (\<^verbatim>\<open>keyboard_fds\<close>, \<^verbatim>\<open>keyboard_paths\<close>, \<^verbatim>\<open>num_keyboards\<close>) is the list of its first
  \<^verbatim>\<open>num_keyboards\<close> entries, each a descriptor with its path.
\<close>

record state =
  mod_map :: "mod_map_entry list"
  hiding :: bool
  always_hide :: bool
  ignore_scroll :: bool
  keystroke_count :: "32 word"
  current_keystrokes :: "32 word"
  timeout :: "32 word"
  jitter :: "32 word"
  hide_x :: "32 word"
  hide_y :: "32 word"
  ignored :: "32 word"
  idler_counter :: nat
  idle_alarm :: nat
  debug :: bool
  keyboards :: "(int \<times> string) list"
  mice :: "(int \<times> string) list"
  move :: "move_types option"
  move_x :: "32 word"
  move_y :: "32 word"
  move_custom_x :: "32 word"
  move_custom_y :: "32 word"
  move_custom_mask :: "32 word"
  xlog :: "xcall list"

text \<open>The initialisers of the globals; a static without one starts at zero.\<close>

definition init_state :: state where
  "init_state = \<lparr> mod_map = [], hiding = False, always_hide = False, ignore_scroll = False,
     keystroke_count = 1, current_keystrokes = 0, timeout = 0, jitter = 0,
     hide_x = 0, hide_y = 0, ignored = 0, idler_counter = 0, idle_alarm = 0,
     debug = False, keyboards = [], mice = [], move = None, move_x = 0, move_y = 0,
     move_custom_x = 0, move_custom_y = 0, move_custom_mask = 0, xlog = [] \<rparr>"

subsection \<open>Option handling (\<^verbatim>\<open>main\<close>, the \<^verbatim>\<open>getopt\<close> loop)\<close>

text \<open>
  The library functions the option loop calls: \<^verbatim>\<open>strtoul(s, NULL, 0)\<close> and
  \<^verbatim>\<open>XParseGeometry\<close>, which gives its result mask and the two offsets.
\<close>

record libc =
  strtoul :: "string \<Rightarrow> 64 word"
  XParseGeometry :: "string \<Rightarrow> 32 word \<times> 32 word \<times> 32 word"

text \<open>Every way the program ends with \<^verbatim>\<open>exit(1)\<close>.\<close>

datatype fatal = Usage | No_display | No_sync_extension | No_idle_counter

text \<open>The table \<^verbatim>\<open>mods\<close>; \<^verbatim>\<open>"all"\<close> has the mask \<^verbatim>\<open>-1\<close>.\<close>

definition mods :: "(string \<times> 32 word) list" where
  "mods = [(''shift'', ShiftMask), (''lock'', LockMask), (''control'', ControlMask),
           (''mod1'', Mod1Mask), (''mod2'', Mod2Mask), (''mod3'', Mod3Mask),
           (''mod4'', Mod4Mask), (''mod5'', Mod5Mask), (''all'', - 1)]"

text \<open>The body of \<^verbatim>\<open>case 'i'\<close>: the loop over \<^verbatim>\<open>mods\<close>, then the exclusion of Mod2.\<close>

fun ignore_loop :: "string \<Rightarrow> (string \<times> 32 word) list \<Rightarrow> 32 word \<Rightarrow> 32 word" where
  "ignore_loop optarg [] ign = ign"
| "ignore_loop optarg ((nm, m) # ms) ign =
     ignore_loop optarg ms (if strcasecmp_eq optarg nm then ign OR m else ign)"

definition opt_i :: "string \<Rightarrow> 32 word \<Rightarrow> 32 word" where
  "opt_i optarg ign =
     (let ign1 = ignore_loop optarg mods ign
      in if strcasecmp_eq optarg ''all'' then ign1 AND NOT Mod2Mask else ign1)"

text \<open>\<^verbatim>\<open>parse_geometry\<close>: the state with the custom offsets when the specification has
  both an x and a y part, \<open>None\<close> for the result 0.\<close>

definition parse_geometry :: "libc \<Rightarrow> string \<Rightarrow> state \<Rightarrow> state option" where
  "parse_geometry lc s st =
     (case XParseGeometry lc s of (ret, x, y) \<Rightarrow>
        if (ret AND XValue \<noteq> 0 \<or> ret AND XNegative \<noteq> 0) \<and>
           (ret AND YValue \<noteq> 0 \<or> ret AND YNegative \<noteq> 0)
        then Some (st\<lparr>move_custom_x := x, move_custom_y := y, move_custom_mask := ret\<rparr>)
        else None)"

text \<open>
  One round of the \<^verbatim>\<open>getopt\<close> loop: \<open>ch\<close> is what \<^verbatim>\<open>getopt\<close> returned (\<^verbatim>\<open>'?'\<close> for an
  option it rejects) and \<open>optarg\<close> its argument. \<^verbatim>\<open>usage\<close> prints and exits with status 1.
\<close>

definition handle_option :: "libc \<Rightarrow> char \<Rightarrow> string \<Rightarrow> state \<Rightarrow> fatal + state" where
  "handle_option lc ch optarg st =
    (if ch = CHR ''a'' then Inr (st\<lparr>always_hide := True\<rparr>)
     else if ch = CHR ''c'' then Inr (st\<lparr>keystroke_count := ucast (strtoul lc optarg)\<rparr>)
     else if ch = CHR ''d'' then Inr (st\<lparr>debug := True\<rparr>)
     else if ch = CHR ''i'' then Inr (st\<lparr>ignored := opt_i optarg (ignored st)\<rparr>)
     else if ch = CHR ''j'' then Inr (st\<lparr>jitter := ucast (strtoul lc optarg)\<rparr>)
     else if ch = CHR ''m'' then
       (if optarg = ''nw'' then Inr (st\<lparr>move := Some MOVE_NW\<rparr>)
        else if optarg = ''ne'' then Inr (st\<lparr>move := Some MOVE_NE\<rparr>)
        else if optarg = ''sw'' then Inr (st\<lparr>move := Some MOVE_SW\<rparr>)
        else if optarg = ''se'' then Inr (st\<lparr>move := Some MOVE_SE\<rparr>)
        else if optarg = ''wnw'' then Inr (st\<lparr>move := Some MOVE_WIN_NW\<rparr>)
        else if optarg = ''wne'' then Inr (st\<lparr>move := Some MOVE_WIN_NE\<rparr>)
        else if optarg = ''wsw'' then Inr (st\<lparr>move := Some MOVE_WIN_SW\<rparr>)
        else if optarg = ''wse'' then Inr (st\<lparr>move := Some MOVE_WIN_SE\<rparr>)
        else (case parse_geometry lc optarg st of
                Some st' \<Rightarrow> Inr (st'\<lparr>move := Some MOVE_CUSTOM\<rparr>)
              | None \<Rightarrow> Inl Usage))
     else if ch = CHR ''t'' then Inr (st\<lparr>timeout := ucast (strtoul lc optarg)\<rparr>)
     else if ch = CHR ''s'' then Inr (st\<lparr>ignore_scroll := True\<rparr>)
     else Inl Usage)"

text \<open>The whole loop; it stops at the first \<^verbatim>\<open>usage\<close>.\<close>

fun getopt_loop :: "libc \<Rightarrow> (char \<times> string) list \<Rightarrow> state \<Rightarrow> fatal + state" where
  "getopt_loop lc [] st = Inr st"
| "getopt_loop lc ((ch, optarg) # rest) st =
     (case handle_option lc ch optarg st of
        Inl e \<Rightarrow> Inl e
      | Inr st' \<Rightarrow> getopt_loop lc rest st')"

subsection \<open>Modifier filter\<close>

text \<open>
  The reply of \<^verbatim>\<open>XGetModifierMapping\<close>: eight rows of \<^verbatim>\<open>max_keypermod\<close> key codes, so
  \<open>modifiermap\<close> has \<open>8 * max_keypermod\<close> entries.
\<close>

record XModifierKeymap =
  max_keypermod :: nat
  modifiermap :: "8 word list"

definition mod_names :: "string list" where
  "mod_names = [''shift'', ''lock'', ''control'', ''mod1'', ''mod2'', ''mod3'', ''mod4'', ''mod5'']"

definition mod_masks :: "32 word list" where
  "mod_masks = [ShiftMask, LockMask, ControlMask, Mod1Mask, Mod2Mask, Mod3Mask, Mod4Mask,
                Mod5Mask]"

text \<open>\<^verbatim>\<open>get_mod_map\<close>: for each of the eight modifiers, the non-zero key codes of its row.\<close>

definition get_mod_map :: "XModifierKeymap \<Rightarrow> mod_map_entry list" where
  "get_mod_map mm =
     map (\<lambda>i. \<lparr> mod_name = mod_names ! i, mod_mask = mod_masks ! i,
                keycodes = filter (\<lambda>kc. kc \<noteq> 0)
                  (map (\<lambda>j. modifiermap mm ! (i * max_keypermod mm + j))
                       [0 ..< max_keypermod mm]) \<rparr>)
         [0 ..< 8]"

text \<open>
  The test \<^verbatim>\<open>(keys_return[keycode >> 3] >> (keycode & 7)) & 1\<close> on the 32 bytes that
  \<^verbatim>\<open>XQueryKeymap\<close> returns.
\<close>

definition key_down :: "8 word list \<Rightarrow> 8 word \<Rightarrow> bool" where
  "key_down keys keycode =
     (drop_bit (unat (keycode AND 7)) (keys ! unat (drop_bit 3 keycode)) AND 1 \<noteq> 0)"

text \<open>The inner loop over the key codes of one modifier (index \<^verbatim>\<open>k\<close>).\<close>

fun any_key_down :: "8 word list \<Rightarrow> 8 word list \<Rightarrow> bool" where
  "any_key_down keys [] = False"
| "any_key_down keys (kc # kcs) = (if key_down keys kc then True else any_key_down keys kcs)"

text \<open>The outer loop over \<^verbatim>\<open>mod_map\<close> (index \<^verbatim>\<open>j\<close>); the result is \<^verbatim>\<open>ignore_keystroke\<close>.\<close>

fun ignore_keystroke :: "mod_map_entry list \<Rightarrow> 32 word \<Rightarrow> 8 word list \<Rightarrow> bool" where
  "ignore_keystroke [] ign keys = False"
| "ignore_keystroke (e # es) ign keys =
     (if mod_mask e AND ign \<noteq> 0 \<and> any_key_down keys (keycodes e) then True
      else ignore_keystroke es ign keys)"

subsection \<open>The environment\<close>

text \<open>
  The reply to \<^verbatim>\<open>QueryPointer\<close>: the protocol gives the root coordinates as 16-bit signed
  numbers, which Xlib widens to \<^verbatim>\<open>int\<close>. \<^verbatim>\<open>XQueryPointer\<close> returns \<open>same_screen\<close>; with no
  reply it returns False and writes nothing. The program passes \<^verbatim>\<open>&win\<close> for the root and
  for the child window, so \<^verbatim>\<open>win\<close> ends as the child.
\<close>

record query_pointer_reply =
  same_screen :: bool
  child :: nat
  root_x :: "16 word"
  root_y :: "16 word"

text \<open>The fields of \<^verbatim>\<open>XWindowAttributes\<close> that the program reads.\<close>

record XWindowAttributes =
  attr_x :: "32 word"
  attr_y :: "32 word"
  attr_width :: "32 word"
  attr_height :: "32 word"

text \<open>What \<^verbatim>\<open>open\<close> and the \<^verbatim>\<open>EVIOCGBIT\<close> requests answer for a device node: the
  descriptor (negative when \<^verbatim>\<open>open\<close> fails), the bitmap of event types and the bitmap of
  keys (\<open>None\<close> when the \<^verbatim>\<open>ioctl\<close> fails). The keyboard check and the pointer check
  both ask for the keys and get the same answer.\<close>

record dev_probe =
  open_fd :: int
  ev_bits_reply :: "64 word list option"
  key_bits_reply :: "64 word list option"

text \<open>
  What the environment answers while one event is handled. \<open>window_attrs\<close> is the
  reply of \<^verbatim>\<open>XGetWindowAttributes\<close> for a window (\<open>None\<close> when the call fails, which then
  leaves the local \<^verbatim>\<open>attrs\<close> as it was: \<open>stack_attrs\<close>, indeterminate in C).
  \<open>screen_w\<close> and \<open>screen_h\<close> are \<^verbatim>\<open>XWidthOfScreen\<close> and \<^verbatim>\<open>XHeightOfScreen\<close>, \<open>new_alarm\<close> is
  the identifier \<^verbatim>\<open>XSyncCreateAlarm\<close> returns.
\<close>

record world =
  pointer :: "query_pointer_reply option"
  window_attrs :: "nat \<Rightarrow> XWindowAttributes option"
  stack_attrs :: XWindowAttributes
  screen_w :: "32 word"
  screen_h :: "32 word"
  keys_return :: "8 word list"
  new_alarm :: nat
  probe :: "string \<Rightarrow> dev_probe"

definition xsend :: "xcall list \<Rightarrow> state \<Rightarrow> state" where
  "xsend cs st = st\<lparr>xlog := xlog st @ cs\<rparr>"

subsection \<open>Hiding and showing the cursor\<close>

text \<open>The \<^verbatim>\<open>switch (move)\<close> of \<^verbatim>\<open>hide_cursor\<close>: the position the pointer is warped to.\<close>

fun move_target ::
  "move_types \<Rightarrow> XWindowAttributes \<Rightarrow> 32 word \<Rightarrow> 32 word \<Rightarrow> state \<Rightarrow> 32 word \<times> 32 word" where
  "move_target MOVE_NW attrs w h st = (0, 0)"
| "move_target MOVE_NE attrs w h st = (w, 0)"
| "move_target MOVE_SW attrs w h st = (0, h)"
| "move_target MOVE_SE attrs w h st = (w, h)"
| "move_target MOVE_WIN_NW attrs w h st = (attr_x attrs, attr_y attrs)"
| "move_target MOVE_WIN_NE attrs w h st = (attr_x attrs + attr_width attrs, attr_y attrs)"
| "move_target MOVE_WIN_SW attrs w h st = (attr_x attrs, attr_y attrs + attr_height attrs)"
| "move_target MOVE_WIN_SE attrs w h st =
     (attr_x attrs + attr_width attrs, attr_y attrs + attr_height attrs)"
| "move_target MOVE_CUSTOM attrs w h st =
     ((if move_custom_mask st AND XNegative \<noteq> 0 then w else 0) + move_custom_x st,
      (if move_custom_mask st AND YNegative \<noteq> 0 then h else 0) + move_custom_y st)"

text \<open>The branch of \<^verbatim>\<open>hide_cursor\<close> after a successful \<^verbatim>\<open>XQueryPointer\<close>.\<close>

definition hide_move :: "world \<Rightarrow> nat \<Rightarrow> state \<Rightarrow> state" where
  "hide_move wd win st =
     (case move st of
        None \<Rightarrow> st
      | Some mv \<Rightarrow>
          (let st1 = xsend [XGetWindowAttributes win] (st\<lparr>move_x := hide_x st, move_y := hide_y st\<rparr>);
               attrs = (case window_attrs wd win of Some a \<Rightarrow> a | None \<Rightarrow> stack_attrs wd);
               h = screen_h wd;
               w = screen_w wd
           in case move_target mv attrs w h st1 of
                (x, y) \<Rightarrow> xsend [XWarpPointer x y] st1))"

text \<open>The branch after a failed \<^verbatim>\<open>XQueryPointer\<close>: \<^verbatim>\<open>else if (move)\<close>.\<close>

definition hide_no_pointer :: "state \<Rightarrow> state" where
  "hide_no_pointer st = (if move st \<noteq> None then st\<lparr>move_x := - 1, move_y := - 1\<rparr> else st)"

definition hide_cursor :: "world \<Rightarrow> state \<Rightarrow> state" where
  "hide_cursor wd st =
     (if hiding st then st
      else
        (let st1 = xsend [XQueryPointer] st;
             st2 = (case pointer wd of
                      None \<Rightarrow> hide_no_pointer st1
                    | Some r \<Rightarrow>
                        (let st1' = st1\<lparr>hide_x := scast (root_x r), hide_y := scast (root_y r)\<rparr>
                         in if same_screen r then hide_move wd (child r) st1'
                            else hide_no_pointer st1'))
         in (xsend [XFixesHideCursor, XFlush] st2)\<lparr>hiding := True\<rparr>))"

text \<open>
  \<^verbatim>\<open>set_alarm(&idle_alarm, XSyncPositiveComparison)\<close>. The wait value is
  \<^verbatim>\<open>timeout * 1000\<close>, computed in \<^verbatim>\<open>unsigned int\<close>, and its upper half after the widening
  to a 64-bit \<^verbatim>\<open>unsigned long\<close>.
\<close>

definition set_alarm :: "world \<Rightarrow> state \<Rightarrow> state" where
  "set_alarm wd st =
     (let st1 = xsend [XSyncQueryCounter (idler_counter st)] st;
          lo = timeout st * 1000;
          hi = (ucast (drop_bit 32 (ucast lo :: 64 word)) :: 32 word);
          st2 = (if idle_alarm st1 \<noteq> 0 then xsend [XSyncDestroyAlarm (idle_alarm st1)] st1
                 else st1)
      in (xsend [XSyncCreateAlarm (idler_counter st) lo hi] st2)\<lparr>idle_alarm := new_alarm wd\<rparr>)"

text \<open>\<^verbatim>\<open>abs\<close> on \<^verbatim>\<open>int\<close>.\<close>

definition c_abs :: "32 word \<Rightarrow> 32 word" where
  "c_abs v = (if v <s 0 then - v else v)"

text \<open>The end of \<^verbatim>\<open>show_cursor\<close>, from \<^verbatim>\<open>if (move && move_x != -1 && move_y != -1)\<close> on.\<close>

definition show_reveal :: "state \<Rightarrow> state" where
  "show_reveal st =
     (let st1 = (if move st \<noteq> None \<and> move_x st \<noteq> - 1 \<and> move_y st \<noteq> - 1
                 then xsend [XWarpPointer (move_x st) (move_y st)] st else st)
      in (xsend [XFixesShowCursor, XFlush] st1)\<lparr>hiding := False\<rparr>)"

definition show_cursor :: "world \<Rightarrow> state \<Rightarrow> state" where
  "show_cursor wd st =
     (let st1 = st\<lparr>current_keystrokes := 0\<rparr>;
          st2 = (if timeout st1 \<noteq> 0 then set_alarm wd st1 else st1)
      in if \<not> hiding st2 then st2
         else if jitter st2 \<noteq> 0 then
           (let st3 = xsend [XQueryPointer] st2
            in case pointer wd of
                 None \<Rightarrow> st3
               | Some r \<Rightarrow>
                   if \<not> same_screen r then st3
                   else
                     (let cur_x = (scast (root_x r) :: 32 word);
                          cur_y = (scast (root_y r) :: 32 word)
                      in if c_abs (cur_x - hide_x st3) <s jitter st3 \<and>
                            c_abs (cur_y - hide_y st3) <s jitter st3
                         then st3
                         else show_reveal st3))
         else show_reveal st2)"

subsection \<open>Device registry\<close>

text \<open>
  \<^verbatim>\<open>test_bit\<close> on an array of \<^verbatim>\<open>unsigned long\<close> (64 bits each).
\<close>

definition test_bit :: "nat \<Rightarrow> 64 word list \<Rightarrow> bool" where
  "test_bit b array = (drop_bit (b mod 64) (array ! (b div 64)) AND 1 \<noteq> 0)"

text \<open>
  A buffer of \<open>n\<close> words after \<^verbatim>\<open>memset(buf, 0, sizeof(buf))\<close> and an \<^verbatim>\<open>EVIOCGBIT\<close> request
  that succeeded: the kernel copies at most the size of the buffer.
\<close>

definition ioctl_fill :: "nat \<Rightarrow> 64 word list \<Rightarrow> 64 word list" where
  "ioctl_fill n reply = take n (reply @ replicate n 0)"

text \<open>The keyboard test and the pointer test of \<^verbatim>\<open>add_device\<close>, each with its capacity
  check; \<open>ev_bits\<close> is the buffer after the first request.\<close>

definition keyboard_test :: "dev_probe \<Rightarrow> 64 word list \<Rightarrow> state \<Rightarrow> bool" where
  "keyboard_test pr ev_bits st =
     (test_bit EV_KEY ev_bits \<and> length (keyboards st) < MAX_INPUT_DEVICES \<and>
      (case key_bits_reply pr of
         None \<Rightarrow> False
       | Some kb \<Rightarrow> test_bit KEY_SPACE (ioctl_fill (KEY_MAX div 64 + 1) kb)))"

definition mouse_test :: "dev_probe \<Rightarrow> 64 word list \<Rightarrow> state \<Rightarrow> bool" where
  "mouse_test pr ev_bits st =
     ((test_bit EV_REL ev_bits \<or> test_bit EV_ABS ev_bits) \<and>
      length (mice st) < MAX_INPUT_DEVICES \<and>
      (case key_bits_reply pr of
         None \<Rightarrow> False
       | Some kb \<Rightarrow>
           (let key_bits = ioctl_fill (KEY_MAX div 64 + 1) kb
            in test_bit BTN_MOUSE key_bits \<or> test_bit BTN_TOUCH key_bits)))"

text \<open>
  \<^verbatim>\<open>add_device\<close>: the value returned (0, or the descriptor of the device added) and the
  new state. The name of the device is read for the trace output only.
\<close>

definition add_device :: "world \<Rightarrow> string \<Rightarrow> state \<Rightarrow> int \<times> state" where
  "add_device wd path st =
     (if path \<in> set (map snd (keyboards st)) then (0, st)
      else if path \<in> set (map snd (mice st)) then (0, st)
      else
        (let pr = probe wd path; fd = open_fd pr
         in if fd < 0 then (0, st)
            else
              (case ev_bits_reply pr of
                 None \<Rightarrow> (0, st)
               | Some eb \<Rightarrow>
                   (let ev_bits = ioctl_fill (EV_MAX div 64 + 1) eb
                    in if keyboard_test pr ev_bits st
                       then (fd, st\<lparr>keyboards := keyboards st @ [(fd, path)]\<rparr>)
                       else if mouse_test pr ev_bits st
                       then (fd, st\<lparr>mice := mice st @ [(fd, path)]\<rparr>)
                       else (0, st)))))"

text \<open>The first entry with the path leaves the list, the later ones move down.\<close>

fun remove_path :: "string \<Rightarrow> (int \<times> string) list \<Rightarrow> (int \<times> string) list" where
  "remove_path path [] = []"
| "remove_path path (d # ds) = (if snd d = path then ds else d # remove_path path ds)"

definition remove_device :: "string \<Rightarrow> state \<Rightarrow> state" where
  "remove_device path st =
     (if path \<in> set (map snd (keyboards st))
      then st\<lparr>keyboards := remove_path path (keyboards st)\<rparr>
      else if path \<in> set (map snd (mice st))
      then st\<lparr>mice := remove_path path (mice st)\<rparr>
      else st)"

text \<open>\<^verbatim>\<open>snoop_evdev\<close> over the entries of \<^verbatim>\<open>/dev/input\<close>.\<close>

fun snoop_evdev :: "world \<Rightarrow> string list \<Rightarrow> state \<Rightarrow> state" where
  "snoop_evdev wd [] st = st"
| "snoop_evdev wd (d_name # rest) st =
     snoop_evdev wd rest
       (if take 5 d_name = ''event'' then snd (add_device wd (''/dev/input/'' @ d_name) st)
        else st)"

subsection \<open>The event loop\<close>

text \<open>A \<^verbatim>\<open>struct input_event\<close> without its time stamp.\<close>

record input_event =
  ev_type :: "16 word"
  ev_code :: "16 word"
  ev_value :: "32 word"

text \<open>The body of the keyboard read loop, for one event read.\<close>

definition keyboard_event :: "world \<Rightarrow> input_event \<Rightarrow> state \<Rightarrow> state" where
  "keyboard_event wd ev st =
     (if unat (ev_type ev) = EV_KEY \<and> ev_value ev = 1 then
        (let st1 = xsend [XQueryKeymap] st
         in if \<not> ignore_keystroke (mod_map st1) (ignored st1) (keys_return wd) then
              (let st2 = st1\<lparr>current_keystrokes := current_keystrokes st1 + 1\<rparr>
               in if keystroke_count st2 \<le>s current_keystrokes st2 then hide_cursor wd st2
                  else st2)
            else st1)
      else st)"

text \<open>The body of the pointer read loop, for one event read.\<close>

definition mouse_event :: "world \<Rightarrow> input_event \<Rightarrow> state \<Rightarrow> state" where
  "mouse_event wd ev st =
     (if unat (ev_type ev) = EV_REL \<or> unat (ev_type ev) = EV_ABS then
        (if \<not> always_hide st then show_cursor wd st else st)
      else if unat (ev_type ev) = EV_KEY \<and> ev_value ev = 1 then
        (if \<not> always_hide st then show_cursor wd st else st)
      else st)"

text \<open>
  What the loop can receive: an X event (\<open>True\<close> when its type is the alarm notification
  of the sync extension), a udev message with its action and device node (either can be
  missing), an event read from a keyboard, an event read from a pointer.
\<close>

datatype event =
    X_event bool
  | Udev_event "string option" "string option"
  | Keyboard_read input_event
  | Mouse_read input_event

fun handle_event :: "world \<Rightarrow> event \<Rightarrow> state \<Rightarrow> state" where
  "handle_event wd (X_event alarm_notify) st =
     (if timeout st \<noteq> 0 \<and> alarm_notify then hide_cursor wd st else st)"
| "handle_event wd (Udev_event (Some action) (Some path)) st =
     (if action = ''add'' then snd (add_device wd path st)
      else if action = ''remove'' then remove_device path st
      else st)"
| "handle_event wd (Udev_event _ _) st = st"
| "handle_event wd (Keyboard_read ev) st = keyboard_event wd ev st"
| "handle_event wd (Mouse_read ev) st = mouse_event wd ev st"

text \<open>The loop over the events received, each with the environment's answers at its time.\<close>

fun main_loop :: "(world \<times> event) list \<Rightarrow> state \<Rightarrow> state" where
  "main_loop [] st = st"
| "main_loop ((wd, e) # es) st = main_loop es (handle_event wd e st)"

subsection \<open>Start-up\<close>

text \<open>
  What \<^verbatim>\<open>main\<close> finds before the loop: whether the display opens, the modifier mapping,
  whether the sync extension is there, the system counters by name, and the entries of
  \<^verbatim>\<open>/dev/input\<close> (none when the directory cannot be opened).
\<close>

record boot =
  display_ok :: bool
  modmap :: XModifierKeymap
  sync_ok :: bool
  counters :: "(string \<times> nat) list"
  dev_input :: "string list"

text \<open>The search for the counter \<^verbatim>\<open>IDLETIME\<close>; 0 when there is none.\<close>

fun find_idletime :: "(string \<times> nat) list \<Rightarrow> nat" where
  "find_idletime [] = 0"
| "find_idletime ((nm, c) # cs) = (if nm = ''IDLETIME'' then c else find_idletime cs)"

text \<open>\<^verbatim>\<open>main\<close> up to the set-up of udev: the options, the display, the idle counter, the
  first scan of the devices and the first hide of the always-hide mode.\<close>

definition main_start ::
  "libc \<Rightarrow> boot \<Rightarrow> world \<Rightarrow> (char \<times> string) list \<Rightarrow> fatal + state" where
  "main_start lc bt wd opts =
     (case getopt_loop lc opts init_state of
        Inl e \<Rightarrow> Inl e
      | Inr st0 \<Rightarrow>
          if \<not> display_ok bt then Inl No_display
          else
            (let st1 = st0\<lparr>mod_map := get_mod_map (modmap bt)\<rparr>
             in if timeout st1 \<noteq> 0 \<and> \<not> sync_ok bt then Inl No_sync_extension
                else
                  (let st2 = (if timeout st1 \<noteq> 0
                              then st1\<lparr>idler_counter := find_idletime (counters bt)\<rparr>
                              else st1)
                   in if timeout st2 \<noteq> 0 \<and> idler_counter st2 = 0 then Inl No_idle_counter
                      else
                        (let st3 = snoop_evdev wd (dev_input bt) st2
                         in Inr (if always_hide st3 then hide_cursor wd st3 else st3)))))"

subsection \<open>Ranges\<close>

text \<open>
  The coordinates in \<^verbatim>\<open>hide_x\<close> and \<^verbatim>\<open>hide_y\<close> are 0 or come from a \<^verbatim>\<open>QueryPointer\<close> reply,
  so they are 16-bit signed numbers held in an \<^verbatim>\<open>int\<close>.
\<close>

definition origin_in_range :: "state \<Rightarrow> bool" where
  "origin_in_range st =
     (- 32768 \<le> sint (hide_x st) \<and> sint (hide_x st) \<le> 32767 \<and>
      - 32768 \<le> sint (hide_y st) \<and> sint (hide_y st) \<le> 32767)"

text \<open>No two registered devices share a path, within a role or across the two.\<close>

definition registry_ok :: "state \<Rightarrow> bool" where
  "registry_ok st = distinct (map snd (keyboards st) @ map snd (mice st))"

subsection \<open>Concrete inputs\<close>

text \<open>
  A modifier mapping as a desktop has it, two key codes a modifier: Shift 50 and 62,
  Lock 66, Control 37 and 105, Mod1 64 and 108, Mod2 77 (Num Lock), Mod3 none,
  Mod4 133 and 134, Mod5 92 and 203.
\<close>

definition ex_modmap :: XModifierKeymap where
  "ex_modmap = \<lparr> max_keypermod = 2,
     modifiermap = [50, 62, 66, 0, 37, 105, 64, 108, 77, 0, 0, 0, 133, 134, 92, 203] \<rparr>"

text \<open>The 32 bytes of a keymap in which the key \<open>kc\<close> is down and no other.\<close>

definition keys_with :: "nat \<Rightarrow> 8 word list" where
  "keys_with kc = (replicate 32 0)[kc div 8 := push_bit (kc mod 8) 1]"

text \<open>A C library in which \<^verbatim>\<open>strtoul\<close> gives 0 and \<^verbatim>\<open>XParseGeometry\<close> finds nothing.\<close>

definition ex_libc :: libc where
  "ex_libc = \<lparr> strtoul = (\<lambda>s. 0), XParseGeometry = (\<lambda>s. (0, 0, 0)) \<rparr>"

text \<open>
  Three device nodes. \<^verbatim>\<open>event0\<close> is a keyboard: its event types are SYN, KEY, MSC, LED and
  REP, and it has the space key (bit 57). \<^verbatim>\<open>event1\<close> is a mouse: SYN, KEY, REL and MSC,
  with \<^verbatim>\<open>BTN_MOUSE\<close> (bit 272, bit 16 of the fifth word). \<^verbatim>\<open>event2\<close> has the keys of both
  and the event types KEY, REL and ABS. No other node opens.
\<close>

definition ex_probe :: "string \<Rightarrow> dev_probe" where
  "ex_probe path =
     (if path = ''/dev/input/event0''
      then \<lparr> open_fd = 5, ev_bits_reply = Some [1179667],
             key_bits_reply = Some [push_bit 57 1, 0, 0, 0, 0, 0, 0, 0, 0, 0, 0, 0] \<rparr>
      else if path = ''/dev/input/event1''
      then \<lparr> open_fd = 6, ev_bits_reply = Some [23],
             key_bits_reply = Some [0, 0, 0, 0, push_bit 16 1, 0, 0, 0, 0, 0, 0, 0] \<rparr>
      else if path = ''/dev/input/event2''
      then \<lparr> open_fd = 7, ev_bits_reply = Some [15],
             key_bits_reply = Some [push_bit 57 1, 0, 0, 0, push_bit 16 1, 0, 0, 0, 0, 0, 0, 0] \<rparr>
      else \<lparr> open_fd = - 1, ev_bits_reply = None, key_bits_reply = None \<rparr>)"

text \<open>
  The pointer at (100, 100) over the window 4194305, which lies at (10, 20) and is
  640 by 480, on a screen of 1920 by 1080; no key is down.
\<close>

definition ex_attrs :: XWindowAttributes where
  "ex_attrs = \<lparr> attr_x = 10, attr_y = 20, attr_width = 640, attr_height = 480 \<rparr>"

definition ex_world :: world where
  "ex_world = \<lparr> pointer = Some \<lparr> same_screen = True, child = 4194305,
                                  root_x = 100, root_y = 100 \<rparr>,
     window_attrs = (\<lambda>w. if w = 4194305 then Some ex_attrs else None),
     stack_attrs = \<lparr> attr_x = 0, attr_y = 0, attr_width = 0, attr_height = 0 \<rparr>,
     screen_w = 1920, screen_h = 1080,
     keys_return = replicate 32 0,
     new_alarm = 8388609,
     probe = ex_probe \<rparr>"

text \<open>The press of the key A (code 30).\<close>

definition ex_press :: input_event where
  "ex_press = \<lparr> ev_type = 1, ev_code = 30, ev_value = 1 \<rparr>"

text \<open>The state after the start with the modifier mapping above and no option.\<close>

definition ex_state :: state where
  "ex_state = init_state\<lparr>mod_map := get_mod_map ex_modmap\<rparr>"

text \<open>The same state with an idle timeout of 5 seconds and the idle counter 52.\<close>

definition ex_idle_state :: state where
  "ex_idle_state = ex_state\<lparr>timeout := 5, idler_counter := 52\<rparr>"

text \<open>The same world with the pointer at another place.\<close>

definition pointer_at :: "16 word \<Rightarrow> 16 word \<Rightarrow> world" where
  "pointer_at px py = ex_world\<lparr>pointer := Some \<lparr> same_screen = True, child = 4194305,
                                                  root_x = px, root_y = py \<rparr>\<rparr>"

text \<open>What \<^verbatim>\<open>main\<close> finds at the start: a display, the sync extension with its idle
  counter 52, and four entries in \<^verbatim>\<open>/dev/input\<close>.\<close>

definition ex_boot :: boot where
  "ex_boot = \<lparr> display_ok = True, modmap = ex_modmap, sync_ok = True,
     counters = [(''SERVERTIME'', 51), (''IDLETIME'', 52)],
     dev_input = [''by-id'', ''event0'', ''event1'', ''mice''] \<rparr>"

text \<open>A relative motion of the pointer and the press of the left button.\<close>

definition ex_motion :: input_event where
  "ex_motion = \<lparr> ev_type = 2, ev_code = 0, ev_value = 5 \<rparr>"

definition ex_click :: input_event where
  "ex_click = \<lparr> ev_type = 1, ev_code = 272, ev_value = 1 \<rparr>"

text \<open>The state in which the start with the option \<^verbatim>\<open>-a\<close> ends.\<close>

definition ex_always_state :: state where
  "ex_always_state = ex_state\<lparr>hiding := True, always_hide := True, hide_x := 100,
     hide_y := 100, keyboards := [(5, ''/dev/input/event0'')],
     mice := [(6, ''/dev/input/event1'')],
     xlog := [XQueryPointer, XFixesHideCursor, XFlush]\<rparr>"

text \<open>A state with 64 keyboards, \<^verbatim>\<open>/dev/input/event10\<close> to \<^verbatim>\<open>/dev/input/event73\<close>.\<close>

definition ex_full_state :: state where
  "ex_full_state = ex_state\<lparr>keyboards :=
     map (\<lambda>n. (int n, ''/dev/input/event'' @ [char_of (48 + n div 10), char_of (48 + n mod 10)]))
       [10 ..< 74]\<rparr>"

text \<open>A C library in which \<^verbatim>\<open>strtoul\<close> gives 5.\<close>

definition ex_libc5 :: libc where
  "ex_libc5 = \<lparr> strtoul = (\<lambda>s. 5), XParseGeometry = (\<lambda>s. (0, 0, 0)) \<rparr>"

text \<open>The state in which the start with \<^verbatim>\<open>-a -j 5\<close> ends.\<close>

definition ex_always_jitter :: state where
  "ex_always_jitter = ex_always_state\<lparr>jitter := 5\<rparr>"

text \<open>The world above with the key \<open>kc\<close> held down.\<close>

definition holding :: "nat \<Rightarrow> world" where
  "holding kc = ex_world\<lparr>keys_return := keys_with kc\<rparr>"

text \<open>The state after the start with \<^verbatim>\<open>-i all\<close>.\<close>

definition ex_all_state :: state where
  "ex_all_state = ex_state\<lparr>ignored := 4294967279\<rparr>"

section \<open>Properties\<close>

subsection \<open>What \<^verbatim>\<open>hide_cursor\<close> leaves alone\<close>

lemma sint_of_nat32: "n < 2 ^ 31 \<Longrightarrow> sint (of_nat n :: 32 word) = int n"
  by (simp add: signed_of_nat signed_take_bit_int_eq_self)

lemma hide_cursor_hiding: "hiding (hide_cursor wd st) = True"
  by (simp add: hide_cursor_def xsend_def Let_def)

lemma hide_cursor_hidden: "hiding st \<Longrightarrow> hide_cursor wd st = st"
  by (simp add: hide_cursor_def)

lemma hide_cursor_frame:
  "keystroke_count (hide_cursor wd st) = keystroke_count st"
  "current_keystrokes (hide_cursor wd st) = current_keystrokes st"
  "mod_map (hide_cursor wd st) = mod_map st"
  "ignored (hide_cursor wd st) = ignored st"
  "always_hide (hide_cursor wd st) = always_hide st"
  "timeout (hide_cursor wd st) = timeout st"
  "jitter (hide_cursor wd st) = jitter st"
  "move (hide_cursor wd st) = move st"
  "keyboards (hide_cursor wd st) = keyboards st"
  "mice (hide_cursor wd st) = mice st"
  "idle_alarm (hide_cursor wd st) = idle_alarm st"
  "idler_counter (hide_cursor wd st) = idler_counter st"
  by (auto simp: hide_cursor_def hide_move_def hide_no_pointer_def xsend_def Let_def
      split: option.splits prod.splits)

subsection \<open>Option \<^verbatim>\<open>-i\<close> and the modifier filter\<close>

lemma ignore_loop_all:
  "strcasecmp_eq optarg ''all'' \<Longrightarrow> ignore_loop optarg mods ign = - 1"
  by (simp add: mods_def strcasecmp_eq_def tolower_def)

lemma opt_i_all: "strcasecmp_eq optarg ''all'' \<Longrightarrow> opt_i optarg ign = - 1 AND NOT Mod2Mask"
  by (simp add: opt_i_def ignore_loop_all)

lemma ignore_loop_none:
  "\<forall>nm \<in> set (map fst ms). \<not> strcasecmp_eq optarg nm \<Longrightarrow> ignore_loop optarg ms ign = ign"
  by (induction ms arbitrary: ign) auto

lemma any_key_down_iff: "any_key_down keys kcs = (\<exists>kc \<in> set kcs. key_down keys kc)"
  by (induction kcs) auto

lemma ignore_keystroke_iff:
  "ignore_keystroke es ign keys =
     (\<exists>e \<in> set es. mod_mask e AND ign \<noteq> 0 \<and> (\<exists>kc \<in> set (keycodes e). key_down keys kc))"
  by (induction es) (auto simp: any_key_down_iff)

lemma get_mod_map_masks: "e \<in> set (get_mod_map mm) \<Longrightarrow> mod_mask e \<in> set mod_masks"
proof -
  have "length mod_masks = 8" by (simp add: mod_masks_def)
  then show "e \<in> set (get_mod_map mm) \<Longrightarrow> mod_mask e \<in> set mod_masks"
    by (auto simp: get_mod_map_def)
qed

lemma all_mask_bits:
  "m \<in> set mod_masks \<Longrightarrow> (m AND (- 1 AND NOT Mod2Mask) \<noteq> 0) = (m \<noteq> Mod2Mask)"
  by (auto simp: mod_masks_def ShiftMask_def LockMask_def ControlMask_def Mod1Mask_def
      Mod2Mask_def Mod3Mask_def Mod4Mask_def Mod5Mask_def)

lemma get_mod_map_ex_modmap:
  "get_mod_map ex_modmap =
     [\<lparr>mod_name = ''shift'', mod_mask = 1, keycodes = [50, 62]\<rparr>,
      \<lparr>mod_name = ''lock'', mod_mask = 2, keycodes = [66]\<rparr>,
      \<lparr>mod_name = ''control'', mod_mask = 4, keycodes = [37, 105]\<rparr>,
      \<lparr>mod_name = ''mod1'', mod_mask = 8, keycodes = [64, 108]\<rparr>,
      \<lparr>mod_name = ''mod2'', mod_mask = 16, keycodes = [77]\<rparr>,
      \<lparr>mod_name = ''mod3'', mod_mask = 32, keycodes = []\<rparr>,
      \<lparr>mod_name = ''mod4'', mod_mask = 64, keycodes = [133, 134]\<rparr>,
      \<lparr>mod_name = ''mod5'', mod_mask = 128, keycodes = [92, 203]\<rparr>]"
  by (simp add: get_mod_map_def ex_modmap_def mod_names_def mod_masks_def upt_rec
      ShiftMask_def LockMask_def ControlMask_def Mod1Mask_def
      Mod2Mask_def Mod3Mask_def Mod4Mask_def Mod5Mask_def)

text \<open>
  C10. An argument of \<^verbatim>\<open>-i\<close> that matches none of the names shift, lock, control,
  mod1 to mod5 and all is silently ignored: the ignore mask and the rest of the state keep
  their values and the option loop goes on. An argument of \<^verbatim>\<open>-m\<close> that is neither one of
  the eight corner names nor a geometry ends the program through \<^verbatim>\<open>usage\<close>.
\<close>

theorem unknown_modifier_is_ignored:
  assumes "\<forall>nm \<in> set [''shift'', ''lock'', ''control'', ''mod1'', ''mod2'', ''mod3'',
                        ''mod4'', ''mod5'', ''all'']. \<not> strcasecmp_eq optarg nm"
  shows "opt_i optarg ign = ign \<and>
         handle_option lc (CHR ''i'') optarg st = Inr st \<and>
         getopt_loop lc ((CHR ''i'', optarg) # rest) st = getopt_loop lc rest st \<and>
         (marg \<notin> set [''nw'', ''ne'', ''sw'', ''se'', ''wnw'', ''wne'', ''wsw'', ''wse''] \<and>
          parse_geometry lc marg st = None \<longrightarrow>
            handle_option lc (CHR ''m'') marg st = Inl Usage \<and>
            getopt_loop lc ((CHR ''m'', marg) # rest) st = Inl Usage)"
proof -
  have "\<forall>nm \<in> set (map fst mods). \<not> strcasecmp_eq optarg nm"
    using assms by (simp add: mods_def)
  then have l: "ignore_loop optarg mods ign = ign" for ign
    by (rule ignore_loop_none)
  have na: "\<not> strcasecmp_eq optarg ''all''"
    using assms by simp
  have a: "opt_i optarg ign = ign" for ign
    by (simp add: opt_i_def l na)
  have b: "handle_option lc (CHR ''i'') optarg st = Inr st"
    by (simp add: handle_option_def a)
  have c: "getopt_loop lc ((CHR ''i'', optarg) # rest) st = getopt_loop lc rest st"
    by (simp add: b)
  have d: "handle_option lc (CHR ''m'') marg st = Inl Usage"
    if "marg \<notin> set [''nw'', ''ne'', ''sw'', ''se'', ''wnw'', ''wne'', ''wsw'', ''wse'']"
      and "parse_geometry lc marg st = None"
    using that by (simp add: handle_option_def)
  from a b c d show ?thesis by simp
qed

text \<open>\<^verbatim>\<open>-i bogus\<close> leaves the initial state as it is; \<^verbatim>\<open>-m bogus\<close> ends in \<^verbatim>\<open>usage\<close>.\<close>

theorem unknown_modifier_is_ignored_witness:
  "list_all (\<lambda>nm. \<not> strcasecmp_eq ''bogus'' nm)
     [''shift'', ''lock'', ''control'', ''mod1'', ''mod2'', ''mod3'', ''mod4'', ''mod5'', ''all''] \<and>
   ''bogus'' \<notin> set [''nw'', ''ne'', ''sw'', ''se'', ''wnw'', ''wne'', ''wsw'', ''wse''] \<and>
   parse_geometry ex_libc ''bogus'' init_state = None \<and>
   getopt_loop ex_libc [(CHR ''i'', ''bogus'')] init_state = Inr init_state \<and>
   getopt_loop ex_libc [(CHR ''m'', ''bogus'')] init_state = Inl Usage"
proof -
  have h: "\<forall>nm \<in> set [''shift'', ''lock'', ''control'', ''mod1'', ''mod2'', ''mod3'',
                        ''mod4'', ''mod5'', ''all'']. \<not> strcasecmp_eq ''bogus'' nm"
    by (simp add: strcasecmp_eq_def tolower_def)
  have g: "parse_geometry ex_libc ''bogus'' init_state = None"
    by (simp add: parse_geometry_def ex_libc_def)
  show ?thesis
    using h g unknown_modifier_is_ignored [OF h, where lc = ex_libc and st = init_state
        and rest = "[]" and marg = "''bogus''"]
    by (simp add: list_all_iff)
qed

subsection \<open>Keystrokes\<close>

text \<open>A press that counts: the state after it.\<close>

lemma keyboard_event_counted:
  assumes "unat (ev_type ev) = EV_KEY" "ev_value ev = 1"
    and "\<not> ignore_keystroke (mod_map st) (ignored st) (keys_return wd)"
  shows "keystroke_count (keyboard_event wd ev st) = keystroke_count st"
    and "mod_map (keyboard_event wd ev st) = mod_map st"
    and "ignored (keyboard_event wd ev st) = ignored st"
    and "current_keystrokes (keyboard_event wd ev st) = current_keystrokes st + 1"
    and "hiding (keyboard_event wd ev st) =
           (hiding st \<or> keystroke_count st \<le>s current_keystrokes st + 1)"
  using assms
  by (auto simp: keyboard_event_def xsend_def Let_def hide_cursor_frame hide_cursor_hiding
      hide_cursor_hidden)

lemma presses_invariant:
  assumes "\<forall>(wd, ev) \<in> set ps. unat (ev_type ev) = EV_KEY \<and> ev_value ev = 1 \<and>
             \<not> ignore_keystroke (mod_map st) (ignored st) (keys_return wd)"
    and "current_keystrokes st = of_nat k"
    and "hiding st = (0 < k \<and> sint (keystroke_count st) \<le> int k)"
  shows "hiding (main_loop (map (\<lambda>(wd, ev). (wd, Keyboard_read ev)) ps) st) =
           (0 < k + length ps \<and> sint (keystroke_count st) \<le> int (k + length ps))"
  using assms
proof (induction ps arbitrary: st k)
  case Nil
  then show ?case by simp
next
  case (Cons p ps)
  obtain wd ev where p: "p = (wd, ev)" by (cases p)
  let ?st = "keyboard_event wd ev st"
  have pr: "unat (ev_type ev) = EV_KEY" "ev_value ev = 1"
    "\<not> ignore_keystroke (mod_map st) (ignored st) (keys_return wd)"
    using Cons.prems(1) p by auto
  note step = keyboard_event_counted [OF pr]
  have cur: "current_keystrokes ?st = of_nat (Suc k)"
    using step(4) Cons.prems(2) by simp
  have T: "sint (keystroke_count st) < 2 ^ 31"
    using sint_lt [of "keystroke_count st"] by simp
  have hid: "hiding ?st = (0 < Suc k \<and> sint (keystroke_count st) \<le> int (Suc k))"
  proof (cases "hiding st")
    case True
    then show ?thesis using step(5) Cons.prems(3) by auto
  next
    case False
    then have "k = 0 \<or> int k < sint (keystroke_count st)"
      using Cons.prems(3) by auto
    then have "Suc k < 2 ^ 31" using T by auto
    then have "sint (of_nat (Suc k) :: 32 word) = int (Suc k)"
      by (rule sint_of_nat32)
    then have "(keystroke_count st \<le>s current_keystrokes st + 1) =
                 (sint (keystroke_count st) \<le> int (Suc k))"
      using Cons.prems(2) by (simp add: word_sle_eq add.commute)
    then show ?thesis using step(5) False by simp
  qed
  have rest: "\<forall>(wd, ev) \<in> set ps. unat (ev_type ev) = EV_KEY \<and> ev_value ev = 1 \<and>
             \<not> ignore_keystroke (mod_map ?st) (ignored ?st) (keys_return wd)"
    using Cons.prems(1) step(2,3) by auto
  have "hiding (main_loop (map (\<lambda>(wd, ev). (wd, Keyboard_read ev)) ps) ?st) =
          (0 < Suc k + length ps \<and> sint (keystroke_count ?st) \<le> int (Suc k + length ps))"
    using Cons.IH [OF rest cur] hid step(1) by simp
  then show ?case
    using p step(1) by simp
qed

lemma ex_not_ignored:
  "\<not> ignore_keystroke (get_mod_map ex_modmap) ign (replicate 32 0)"
  by (simp add: get_mod_map_ex_modmap key_down_def)

subsection \<open>Keystrokes while the cursor is hidden\<close>

lemma ex_first_press:
  "keyboard_event ex_world ex_press ex_state =
     ex_state\<lparr>hiding := True, current_keystrokes := 1, hide_x := 100, hide_y := 100,
       xlog := [XQueryKeymap, XQueryPointer, XFixesHideCursor, XFlush]\<rparr>"
  by (simp add: keyboard_event_def ex_press_def EV_KEY_def xsend_def ex_state_def
      init_state_def ex_world_def ex_not_ignored hide_cursor_def hide_move_def Let_def)

text \<open>
  C3 (amended). A key press that arrives while the cursor is hidden sends no request but
  the keymap query and leaves the hidden flag, the hide origin, the move target and every
  other variable as they are, except the keystroke counter: that is incremented by one
  unless an ignored modifier is held.
\<close>

theorem press_while_hidden:
  assumes "hiding st" and "unat (ev_type ev) = EV_KEY" and "ev_value ev = 1"
  shows "keyboard_event wd ev st =
           st\<lparr>current_keystrokes :=
                 (if ignore_keystroke (mod_map st) (ignored st) (keys_return wd)
                  then current_keystrokes st else current_keystrokes st + 1),
               xlog := xlog st @ [XQueryKeymap]\<rparr>"
  using assms
  by (simp add: keyboard_event_def xsend_def Let_def hide_cursor_def)

text \<open>The second press after the start: the counter becomes 2, nothing else changes.\<close>

theorem press_while_hidden_witness:
  "keyboard_event ex_world ex_press (keyboard_event ex_world ex_press ex_state) =
     ex_state\<lparr>hiding := True, current_keystrokes := 2, hide_x := 100, hide_y := 100,
       xlog := [XQueryKeymap, XQueryPointer, XFixesHideCursor, XFlush, XQueryKeymap]\<rparr>"
proof -
  let ?st = "keyboard_event ex_world ex_press ex_state"
  have a: "hiding ?st" by (simp add: ex_first_press)
  have b: "unat (ev_type ex_press) = EV_KEY" "ev_value ex_press = 1"
    by (simp_all add: ex_press_def EV_KEY_def)
  show ?thesis
    using press_while_hidden [OF a b, of ex_world]
    by (simp add: ex_first_press)
      (simp add: ex_state_def init_state_def ex_world_def ex_not_ignored)
qed

text \<open>
  The claim as the specification words it fails: the second of two presses arrives while
  the cursor is hidden, and the counter goes from 1 to 2.
\<close>

theorem press_while_hidden_counterexample:
  "hiding (keyboard_event ex_world ex_press ex_state) \<and>
   current_keystrokes (keyboard_event ex_world ex_press ex_state) = 1 \<and>
   current_keystrokes
     (keyboard_event ex_world ex_press (keyboard_event ex_world ex_press ex_state)) = 2"
  by (simp add: ex_first_press)
    (simp add: keyboard_event_def ex_press_def EV_KEY_def xsend_def ex_state_def
      init_state_def ex_world_def ex_not_ignored hide_cursor_def Let_def)

subsection \<open>Showing a visible cursor\<close>

lemma alarm_high_half: "(ucast (drop_bit 32 (ucast (lo :: 32 word) :: 64 word)) :: 32 word) = 0"
  by (rule bit_word_eqI) (auto simp: bit_simps dest: bit_imp_le_length)

lemma set_alarm_eq:
  "set_alarm wd st =
     st\<lparr>idle_alarm := new_alarm wd,
        xlog := xlog st @ XSyncQueryCounter (idler_counter st) #
          (if idle_alarm st \<noteq> 0 then [XSyncDestroyAlarm (idle_alarm st)] else []) @
          [XSyncCreateAlarm (idler_counter st) (timeout st * 1000) 0]\<rparr>"
  by (simp add: set_alarm_def xsend_def Let_def alarm_high_half)

text \<open>
  C4 (amended). \<^verbatim>\<open>show_cursor\<close> on a visible cursor resets the keystroke counter to 0 and,
  with no idle timeout configured, does nothing else. With an idle timeout it also
  re-arms the idle alarm (it queries the idle counter, destroys the alarm armed before
  and creates a new one) and does nothing else: no warp, no show-cursor request, no
  pointer query.
\<close>

theorem show_while_visible:
  assumes "\<not> hiding st"
  shows "(timeout st = 0 \<longrightarrow> show_cursor wd st = st\<lparr>current_keystrokes := 0\<rparr>) \<and>
         (timeout st \<noteq> 0 \<longrightarrow> show_cursor wd st =
            st\<lparr>current_keystrokes := 0, idle_alarm := new_alarm wd,
               xlog := xlog st @ XSyncQueryCounter (idler_counter st) #
                 (if idle_alarm st \<noteq> 0 then [XSyncDestroyAlarm (idle_alarm st)] else []) @
                 [XSyncCreateAlarm (idler_counter st) (timeout st * 1000) 0]\<rparr>)"
  using assms by (simp add: show_cursor_def set_alarm_eq Let_def)


text \<open>Both cases on a visible cursor with the counter at 2.\<close>

theorem show_while_visible_witness:
  "show_cursor ex_world (ex_state\<lparr>current_keystrokes := 2\<rparr>) = ex_state \<and>
   show_cursor ex_world (ex_idle_state\<lparr>current_keystrokes := 2\<rparr>) =
     ex_idle_state\<lparr>idle_alarm := 8388609,
       xlog := [XSyncQueryCounter 52, XSyncCreateAlarm 52 5000 0]\<rparr>"
proof -
  have a: "\<not> hiding (ex_state\<lparr>current_keystrokes := 2\<rparr>)"
    and b: "\<not> hiding (ex_idle_state\<lparr>current_keystrokes := 2\<rparr>)"
    by (simp_all add: ex_idle_state_def ex_state_def init_state_def)
  show ?thesis
    using show_while_visible [OF a, of ex_world] show_while_visible [OF b, of ex_world]
    by (simp add: ex_idle_state_def ex_state_def init_state_def ex_world_def)
qed

text \<open>
  The claim as the specification words it fails for a configuration with an idle timeout:
  on a visible cursor \<^verbatim>\<open>show_cursor\<close> sends two requests of the sync extension and changes
  the alarm.
\<close>

theorem show_while_visible_counterexample:
  "\<not> hiding ex_idle_state \<and> xlog ex_idle_state = [] \<and>
   xlog (show_cursor ex_world ex_idle_state) =
     [XSyncQueryCounter 52, XSyncCreateAlarm 52 5000 0] \<and>
   idle_alarm ex_idle_state = 0 \<and>
   idle_alarm (show_cursor ex_world ex_idle_state) = 8388609"
  by (simp add: ex_idle_state_def ex_state_def init_state_def show_cursor_def set_alarm_eq
      ex_world_def Let_def)

subsection \<open>Jitter\<close>

lemma sint_scast16: "sint (scast (a :: 16 word) :: 32 word) = sint a"
  by (simp add: sint_up_scast is_up)

lemma sint16_range: "- 32768 \<le> sint (a :: 16 word) \<and> sint a \<le> 32767"
  using sint_ge [of a] sint_lt [of a] by simp

lemma c_abs_diff:
  fixes a :: "16 word" and b :: "32 word"
  assumes "- 32768 \<le> sint b" "sint b \<le> 32767"
  shows "sint (c_abs (scast a - b)) = \<bar>sint a - sint b\<bar>"
proof -
  have r: "- 32768 \<le> sint a \<and> sint a \<le> 32767" by (rule sint16_range)
  have d: "sint ((scast a :: 32 word) - b) = sint a - sint b"
    using r assms by (simp add: sint_word_diff sint_scast16 signed_take_bit_int_eq_self)
  have m: "sint (- ((scast a :: 32 word) - b)) = - (sint a - sint b)"
    using r assms d by (simp add: sint_word_minus signed_take_bit_int_eq_self del: minus_diff_eq)
  show ?thesis
    using d m by (simp add: c_abs_def word_sless_alt)
qed

lemma set_alarm_frame:
  "hiding (set_alarm wd st) = hiding st"
  "jitter (set_alarm wd st) = jitter st"
  "hide_x (set_alarm wd st) = hide_x st"
  "hide_y (set_alarm wd st) = hide_y st"
  "move (set_alarm wd st) = move st"
  "move_x (set_alarm wd st) = move_x st"
  "move_y (set_alarm wd st) = move_y st"
  "always_hide (set_alarm wd st) = always_hide st"
  by (simp_all add: set_alarm_eq)

lemma show_reveal_hiding: "hiding (show_reveal st) = False"
  by (simp add: show_reveal_def xsend_def Let_def)

lemma ex_hidden_jitter:
  "hide_cursor ex_world (ex_state\<lparr>jitter := 5\<rparr>) =
     ex_state\<lparr>jitter := 5, hiding := True, hide_x := 100, hide_y := 100,
       xlog := [XQueryPointer, XFixesHideCursor, XFlush]\<rparr>"
  by (simp add: hide_cursor_def hide_move_def xsend_def ex_state_def init_state_def
      ex_world_def Let_def)

text \<open>The range of the hide origin holds in every state the event loop reaches.\<close>

lemma origin_in_range_hide_cursor:
  "origin_in_range st \<Longrightarrow> origin_in_range (hide_cursor wd st)"
  using sint16_range
  by (auto simp: origin_in_range_def hide_cursor_def hide_move_def hide_no_pointer_def
      xsend_def Let_def sint_scast16 split: option.splits prod.splits)

lemma show_cursor_frame:
  "hide_x (show_cursor wd st) = hide_x st"
  "hide_y (show_cursor wd st) = hide_y st"
  "always_hide (show_cursor wd st) = always_hide st"
  by (auto simp: show_cursor_def show_reveal_def set_alarm_eq xsend_def Let_def
      split: option.splits)

lemma add_device_frame:
  "snd (add_device wd path st) =
     st\<lparr>keyboards := keyboards (snd (add_device wd path st)),
        mice := mice (snd (add_device wd path st))\<rparr>"
  by (auto simp: add_device_def Let_def split: option.splits)

lemma remove_device_frame:
  "remove_device path st =
     st\<lparr>keyboards := keyboards (remove_device path st),
        mice := mice (remove_device path st)\<rparr>"
  by (auto simp: remove_device_def)

lemma origin_in_range_registry:
  "origin_in_range (st\<lparr>keyboards := ks, mice := ms\<rparr>) = origin_in_range st"
  by (simp add: origin_in_range_def)

lemma origin_in_range_handle_event:
  "origin_in_range st \<Longrightarrow> origin_in_range (handle_event wd e st)"
proof (induction wd e st rule: handle_event.induct)
  case (1 wd alarm_notify st)
  then show ?case by (simp add: origin_in_range_hide_cursor)
next
  case (2 wd action path st)
  have a: "origin_in_range (snd (add_device wd path st))"
    using 2 by (subst add_device_frame) (simp only: origin_in_range_registry)
  have r: "origin_in_range (remove_device path st)"
    using 2 by (subst remove_device_frame) (simp only: origin_in_range_registry)
  show ?case using 2 a r by simp
next
  case (4 wd ev st)
  have o1: "origin_in_range (xsend [XQueryKeymap] st)"
    using 4 by (simp add: origin_in_range_def xsend_def)
  have o2: "origin_in_range ((xsend [XQueryKeymap] st)\<lparr>current_keystrokes := c\<rparr>)" for c
    using 4 by (simp add: origin_in_range_def xsend_def)
  show ?case
    using 4 o1 o2 origin_in_range_hide_cursor [OF o2]
    by (simp add: keyboard_event_def Let_def)
next
  case (5 wd ev st)
  then show ?case
    by (simp add: mouse_event_def origin_in_range_def show_cursor_frame)
qed simp_all

lemma origin_in_range_main_loop:
  "origin_in_range st \<Longrightarrow> origin_in_range (main_loop es st)"
  by (induction es arbitrary: st) (auto simp: origin_in_range_handle_event)

subsection \<open>Moving the pointer away and back\<close>

lemma ex_hidden_se:
  "hide_cursor ex_world (ex_state\<lparr>move := Some MOVE_SE\<rparr>) =
     ex_state\<lparr>move := Some MOVE_SE, hiding := True, hide_x := 100, hide_y := 100,
       move_x := 100, move_y := 100,
       xlog := [XQueryPointer, XGetWindowAttributes 4194305, XWarpPointer 1920 1080,
                XFixesHideCursor, XFlush]\<rparr>"
  by (simp add: hide_cursor_def hide_move_def xsend_def ex_state_def init_state_def
      ex_world_def Let_def)

lemma move_target_custom:
  assumes "move_custom_x s' = move_custom_x s" and "move_custom_y s' = move_custom_y s"
    and "move_custom_mask s' = move_custom_mask s"
  shows "move_target mv a w h s' = move_target mv a w h s"
  using assms by (cases mv) simp_all

lemma hide_cursor_moved:
  assumes "\<not> hiding st" and "move st = Some mv" and "pointer wd = Some r" and "same_screen r"
  shows "hide_cursor wd st =
           (case move_target mv
                   (case window_attrs wd (child r) of Some a \<Rightarrow> a | None \<Rightarrow> stack_attrs wd)
                   (screen_w wd) (screen_h wd) st of
              (x, y) \<Rightarrow>
                st\<lparr>hiding := True, hide_x := scast (root_x r), hide_y := scast (root_y r),
                   move_x := scast (root_x r), move_y := scast (root_y r),
                   xlog := xlog st @ [XQueryPointer, XGetWindowAttributes (child r),
                                      XWarpPointer x y, XFixesHideCursor, XFlush]\<rparr>)"
proof -
  have mt: "move_target mv a w h
              (st\<lparr>hide_x := hx, hide_y := hy, move_x := mx, move_y := my, xlog := l\<rparr>) =
            move_target mv a w h st" for a w h mx my hx hy l
    by (rule move_target_custom) simp_all
  show ?thesis
    using assms
    by (simp add: hide_cursor_def hide_move_def xsend_def Let_def case_prod_beta mt)
qed

lemma show_cursor_reveals:
  assumes "hiding s" and "\<not> hiding (show_cursor wd s)"
  shows "show_cursor wd s =
           show_reveal
             (let s1 = s\<lparr>current_keystrokes := 0\<rparr>;
                  s2 = (if timeout s \<noteq> 0 then set_alarm wd s1 else s1)
              in if jitter s \<noteq> 0 then xsend [XQueryPointer] s2 else s2)"
proof -
  let ?s1 = "s\<lparr>current_keystrokes := 0\<rparr>"
  let ?s2 = "if timeout s \<noteq> 0 then set_alarm wd ?s1 else ?s1"
  have f: "hiding ?s2" "jitter ?s2 = jitter s"
    using assms(1) by (simp_all add: set_alarm_frame)
  show ?thesis
  proof (cases "jitter s = 0")
    case True
    then show ?thesis using f by (simp add: show_cursor_def Let_def)
  next
    case False
    let ?s3 = "xsend [XQueryPointer] ?s2"
    have h3: "hiding ?s3" using f(1) by (simp add: xsend_def)
    have eq: "show_cursor wd s = ?s3 \<or> show_cursor wd s = show_reveal ?s3"
      using False f by (simp add: show_cursor_def Let_def split: option.splits)
    then have "show_cursor wd s = show_reveal ?s3"
      using assms(2) h3 by auto
    then show ?thesis using False by (simp add: Let_def)
  qed
qed


text \<open>
  C6 (amended). When \<^verbatim>\<open>hide_cursor\<close> hides the cursor with a move policy and the pointer
  query succeeds, it warps the pointer to the corner of the policy: for the screen
  corners nw, ne, sw and se to (0, 0), (width, 0), (0, height) and (width, height) of the
  screen, whatever the window; for the window corners to the matching corner of the window
  under the pointer, from that window's attributes. What it records in
  \<^verbatim>\<open>move_x\<close>, \<^verbatim>\<open>move_y\<close> is not that corner but the position the pointer had when the cursor was
  hidden. When \<^verbatim>\<open>show_cursor\<close> reveals the cursor and neither recorded coordinate is -1, it
  warps the pointer back to the recorded position, then sends the show-cursor request and
  flushes.
\<close>

theorem hide_warps_to_corner_show_warps_back:
  "(\<not> hiding st \<and> move st = Some mv \<and> pointer wd = Some r \<and> same_screen r \<longrightarrow>
      move_x (hide_cursor wd st) = scast (root_x r) \<and>
      move_y (hide_cursor wd st) = scast (root_y r) \<and>
      (\<exists>tx ty.
         xlog (hide_cursor wd st) =
           xlog st @ [XQueryPointer, XGetWindowAttributes (child r), XWarpPointer tx ty,
                      XFixesHideCursor, XFlush] \<and>
         (mv = MOVE_NW \<longrightarrow> tx = 0 \<and> ty = 0) \<and>
         (mv = MOVE_NE \<longrightarrow> tx = screen_w wd \<and> ty = 0) \<and>
         (mv = MOVE_SW \<longrightarrow> tx = 0 \<and> ty = screen_h wd) \<and>
         (mv = MOVE_SE \<longrightarrow> tx = screen_w wd \<and> ty = screen_h wd) \<and>
         (\<forall>a. window_attrs wd (child r) = Some a \<longrightarrow>
            (mv = MOVE_WIN_NW \<longrightarrow> tx = attr_x a \<and> ty = attr_y a) \<and>
            (mv = MOVE_WIN_NE \<longrightarrow> tx = attr_x a + attr_width a \<and> ty = attr_y a) \<and>
            (mv = MOVE_WIN_SW \<longrightarrow> tx = attr_x a \<and> ty = attr_y a + attr_height a) \<and>
            (mv = MOVE_WIN_SE \<longrightarrow>
               tx = attr_x a + attr_width a \<and> ty = attr_y a + attr_height a)))) \<and>
   (hiding s \<and> move s \<noteq> None \<and> move_x s \<noteq> - 1 \<and> move_y s \<noteq> - 1 \<and>
    \<not> hiding (show_cursor wd' s) \<longrightarrow>
      show_cursor wd' s =
        (let s1 = s\<lparr>current_keystrokes := 0\<rparr>;
             s2 = (if timeout s \<noteq> 0 then set_alarm wd' s1 else s1);
             s3 = (if jitter s \<noteq> 0 then xsend [XQueryPointer] s2 else s2)
         in (xsend [XWarpPointer (move_x s) (move_y s), XFixesShowCursor, XFlush] s3)
              \<lparr>hiding := False\<rparr>))"
proof (intro conjI impI)
  assume h: "\<not> hiding st \<and> move st = Some mv \<and> pointer wd = Some r \<and> same_screen r"
  define attrs where
    "attrs = (case window_attrs wd (child r) of Some a \<Rightarrow> a | None \<Rightarrow> stack_attrs wd)"
  obtain x y where t: "move_target mv attrs (screen_w wd) (screen_h wd) st = (x, y)"
    by (cases "move_target mv attrs (screen_w wd) (screen_h wd) st")
  have eq: "hide_cursor wd st =
      st\<lparr>hiding := True, hide_x := scast (root_x r), hide_y := scast (root_y r),
         move_x := scast (root_x r), move_y := scast (root_y r),
         xlog := xlog st @ [XQueryPointer, XGetWindowAttributes (child r),
                            XWarpPointer x y, XFixesHideCursor, XFlush]\<rparr>"
    using h t hide_cursor_moved [of st mv wd r] by (simp add: attrs_def)
  show "move_x (hide_cursor wd st) = scast (root_x r)"
    and "move_y (hide_cursor wd st) = scast (root_y r)"
    by (simp_all add: eq)
  have l: "xlog (hide_cursor wd st) =
      xlog st @ [XQueryPointer, XGetWindowAttributes (child r), XWarpPointer x y,
                 XFixesHideCursor, XFlush]"
    by (simp add: eq)
  have scr: "(mv = MOVE_NW \<longrightarrow> x = 0 \<and> y = 0) \<and>
         (mv = MOVE_NE \<longrightarrow> x = screen_w wd \<and> y = 0) \<and>
         (mv = MOVE_SW \<longrightarrow> x = 0 \<and> y = screen_h wd) \<and>
         (mv = MOVE_SE \<longrightarrow> x = screen_w wd \<and> y = screen_h wd)"
    using t by auto
  have win: "\<forall>a. window_attrs wd (child r) = Some a \<longrightarrow>
            (mv = MOVE_WIN_NW \<longrightarrow> x = attr_x a \<and> y = attr_y a) \<and>
            (mv = MOVE_WIN_NE \<longrightarrow> x = attr_x a + attr_width a \<and> y = attr_y a) \<and>
            (mv = MOVE_WIN_SW \<longrightarrow> x = attr_x a \<and> y = attr_y a + attr_height a) \<and>
            (mv = MOVE_WIN_SE \<longrightarrow>
               x = attr_x a + attr_width a \<and> y = attr_y a + attr_height a)"
    using t by (auto simp: attrs_def)
  show "\<exists>tx ty.
         xlog (hide_cursor wd st) =
           xlog st @ [XQueryPointer, XGetWindowAttributes (child r), XWarpPointer tx ty,
                      XFixesHideCursor, XFlush] \<and>
         (mv = MOVE_NW \<longrightarrow> tx = 0 \<and> ty = 0) \<and>
         (mv = MOVE_NE \<longrightarrow> tx = screen_w wd \<and> ty = 0) \<and>
         (mv = MOVE_SW \<longrightarrow> tx = 0 \<and> ty = screen_h wd) \<and>
         (mv = MOVE_SE \<longrightarrow> tx = screen_w wd \<and> ty = screen_h wd) \<and>
         (\<forall>a. window_attrs wd (child r) = Some a \<longrightarrow>
            (mv = MOVE_WIN_NW \<longrightarrow> tx = attr_x a \<and> ty = attr_y a) \<and>
            (mv = MOVE_WIN_NE \<longrightarrow> tx = attr_x a + attr_width a \<and> ty = attr_y a) \<and>
            (mv = MOVE_WIN_SW \<longrightarrow> tx = attr_x a \<and> ty = attr_y a + attr_height a) \<and>
            (mv = MOVE_WIN_SE \<longrightarrow>
               tx = attr_x a + attr_width a \<and> ty = attr_y a + attr_height a))"
    using l scr win by blast
next
  assume h: "hiding s \<and> move s \<noteq> None \<and> move_x s \<noteq> - 1 \<and> move_y s \<noteq> - 1 \<and>
    \<not> hiding (show_cursor wd' s)"
  then have "show_cursor wd' s =
           show_reveal
             (let s1 = s\<lparr>current_keystrokes := 0\<rparr>;
                  s2 = (if timeout s \<noteq> 0 then set_alarm wd' s1 else s1)
              in if jitter s \<noteq> 0 then xsend [XQueryPointer] s2 else s2)"
    by (intro show_cursor_reveals) simp_all
  then show "show_cursor wd' s =
        (let s1 = s\<lparr>current_keystrokes := 0\<rparr>;
             s2 = (if timeout s \<noteq> 0 then set_alarm wd' s1 else s1);
             s3 = (if jitter s \<noteq> 0 then xsend [XQueryPointer] s2 else s2)
         in (xsend [XWarpPointer (move_x s) (move_y s), XFixesShowCursor, XFlush] s3)
              \<lparr>hiding := False\<rparr>)"
    using h by (simp add: show_reveal_def Let_def set_alarm_frame xsend_def)
qed

text \<open>The policy wse with the pointer at (100, 100) over a window at (10, 20) of 640 by
  480: the hide warps to (650, 500), the show warps back to (100, 100).\<close>

lemma ex_hidden_win_se:
  "hide_cursor ex_world (ex_state\<lparr>move := Some MOVE_WIN_SE\<rparr>) =
     ex_state\<lparr>move := Some MOVE_WIN_SE, hiding := True, hide_x := 100, hide_y := 100,
       move_x := 100, move_y := 100,
       xlog := [XQueryPointer, XGetWindowAttributes 4194305, XWarpPointer 650 500,
                XFixesHideCursor, XFlush]\<rparr>"
  by (simp add: hide_cursor_def hide_move_def xsend_def ex_state_def init_state_def
      ex_world_def ex_attrs_def Let_def)

theorem hide_warps_to_corner_show_warps_back_witness:
  "xlog (hide_cursor ex_world (ex_state\<lparr>move := Some MOVE_WIN_SE\<rparr>)) =
     [XQueryPointer, XGetWindowAttributes 4194305, XWarpPointer 650 500,
      XFixesHideCursor, XFlush] \<and>
   xlog (show_cursor (pointer_at 649 499)
           (hide_cursor ex_world (ex_state\<lparr>move := Some MOVE_WIN_SE\<rparr>))) =
     [XQueryPointer, XGetWindowAttributes 4194305, XWarpPointer 650 500,
      XFixesHideCursor, XFlush, XWarpPointer 100 100, XFixesShowCursor, XFlush]"
proof -
  let ?st = "ex_state\<lparr>move := Some MOVE_WIN_SE\<rparr>"
  let ?r = "\<lparr> same_screen = True, child = 4194305, root_x = 100, root_y = 100 \<rparr>"
  let ?s = "hide_cursor ex_world ?st"
  have a: "\<not> hiding ?st \<and> move ?st = Some MOVE_WIN_SE \<and> pointer ex_world = Some ?r \<and>
           same_screen ?r"
    by (simp add: ex_state_def init_state_def ex_world_def)
  have w: "window_attrs ex_world (child ?r) = Some ex_attrs" "xlog ?st = []"
    by (simp_all add: ex_world_def ex_state_def init_state_def)
  have b: "hiding ?s \<and> move ?s \<noteq> None \<and> move_x ?s \<noteq> - 1 \<and> move_y ?s \<noteq> - 1 \<and>
           \<not> hiding (show_cursor (pointer_at 649 499) ?s)"
    by (simp add: ex_hidden_win_se)
      (simp add: show_cursor_def show_reveal_def xsend_def ex_state_def init_state_def Let_def)
  have t: "timeout ?s = 0" "jitter ?s = 0" "move_x ?s = 100" "move_y ?s = 100"
    by (simp_all add: ex_hidden_win_se) (simp_all add: ex_state_def init_state_def)
  note inst = hide_warps_to_corner_show_warps_back
    [where st = ?st and mv = MOVE_WIN_SE and wd = ex_world and r = ?r and s = ?s
       and wd' = "pointer_at 649 499"]
  from inst a w have "xlog ?s = [XQueryPointer, XGetWindowAttributes 4194305,
      XWarpPointer 650 500, XFixesHideCursor, XFlush]"
    by (auto simp: ex_attrs_def)
  moreover from inst b t have "xlog (show_cursor (pointer_at 649 499) ?s) =
      xlog ?s @ [XWarpPointer 100 100, XFixesShowCursor, XFlush]"
    by (simp add: Let_def xsend_def)
  ultimately show ?thesis by simp
qed

text \<open>
  The claim as the specification words it fails. With the policy se on a screen of 1920 by
  1080 and the pointer at (100, 100), the recorded pair is (100, 100), not the corner
  (1920, 1080) that the hide warps to, and the show warps to (100, 100), not to that
  corner.
\<close>

theorem move_target_counterexample:
  "screen_w ex_world = 1920 \<and> screen_h ex_world = 1080 \<and>
   move_x (hide_cursor ex_world (ex_state\<lparr>move := Some MOVE_SE\<rparr>)) = 100 \<and>
   move_y (hide_cursor ex_world (ex_state\<lparr>move := Some MOVE_SE\<rparr>)) = 100 \<and>
   xlog (hide_cursor ex_world (ex_state\<lparr>move := Some MOVE_SE\<rparr>)) =
     [XQueryPointer, XGetWindowAttributes 4194305, XWarpPointer 1920 1080,
      XFixesHideCursor, XFlush] \<and>
   xlog (show_cursor (pointer_at 1919 1079)
           (hide_cursor ex_world (ex_state\<lparr>move := Some MOVE_SE\<rparr>))) =
     [XQueryPointer, XGetWindowAttributes 4194305, XWarpPointer 1920 1080,
      XFixesHideCursor, XFlush, XWarpPointer 100 100, XFixesShowCursor, XFlush]"
  by (simp add: ex_hidden_se)
    (simp add: show_cursor_def show_reveal_def xsend_def ex_state_def init_state_def
      ex_world_def Let_def)

subsection \<open>The always-hide mode\<close>

lemma mouse_event_always_hide: "always_hide st \<Longrightarrow> mouse_event wd ev st = st"
  by (simp add: mouse_event_def)

lemma hide_cursor_no_show:
  "(XFixesShowCursor \<in> set (xlog (hide_cursor wd st))) = (XFixesShowCursor \<in> set (xlog st))"
  by (auto simp: hide_cursor_def hide_move_def hide_no_pointer_def xsend_def Let_def
      split: option.splits prod.splits)

lemma keyboard_event_always_hide:
  "always_hide (keyboard_event wd ev st) = always_hide st"
  "hiding st \<Longrightarrow> hiding (keyboard_event wd ev st)"
  "(XFixesShowCursor \<in> set (xlog (keyboard_event wd ev st))) = (XFixesShowCursor \<in> set (xlog st))"
  by (simp_all add: keyboard_event_def Let_def xsend_def hide_cursor_frame hide_cursor_hiding
      hide_cursor_no_show)

lemma registry_frame:
  "always_hide (st\<lparr>keyboards := ks, mice := ms\<rparr>) = always_hide st"
  "hiding (st\<lparr>keyboards := ks, mice := ms\<rparr>) = hiding st"
  "xlog (st\<lparr>keyboards := ks, mice := ms\<rparr>) = xlog st"
  by simp_all

lemma add_device_other:
  "always_hide (snd (add_device wd path st)) = always_hide st"
  "hiding (snd (add_device wd path st)) = hiding st"
  "xlog (snd (add_device wd path st)) = xlog st"
  by (subst add_device_frame, simp only: registry_frame)+

lemma remove_device_other:
  "always_hide (remove_device path st) = always_hide st"
  "hiding (remove_device path st) = hiding st"
  "xlog (remove_device path st) = xlog st"
  by (subst remove_device_frame, simp only: registry_frame)+

lemma handle_event_always_hide:
  assumes "always_hide st"
  shows "always_hide (handle_event wd e st)"
    and "hiding st \<Longrightarrow> hiding (handle_event wd e st)"
    and "(XFixesShowCursor \<in> set (xlog (handle_event wd e st))) =
           (XFixesShowCursor \<in> set (xlog st))"
  using assms
  by (induction wd e st rule: handle_event.induct)
    (simp_all add: hide_cursor_frame hide_cursor_hiding hide_cursor_no_show
      add_device_other remove_device_other keyboard_event_always_hide mouse_event_always_hide)

lemma main_loop_always_hide:
  assumes "always_hide st"
  shows "always_hide (main_loop es st)"
    and "hiding st \<Longrightarrow> hiding (main_loop es st)"
    and "(XFixesShowCursor \<in> set (xlog (main_loop es st))) =
           (XFixesShowCursor \<in> set (xlog st))"
  using assms
  by (induction es arbitrary: st) (auto simp: handle_event_always_hide)

lemma parse_geometry_always_hide:
  "parse_geometry lc s st = Some st' \<Longrightarrow> always_hide st' = always_hide st"
  by (auto simp: parse_geometry_def split: prod.splits if_splits)

lemma handle_option_always_hide:
  assumes "handle_option lc ch optarg st = Inr st'"
  shows "always_hide st' = (always_hide st \<or> ch = CHR ''a'')"
proof (cases "ch = CHR ''m''")
  case True
  then show ?thesis
    using assms
    by (auto simp: handle_option_def split: if_splits option.splits
        dest: parse_geometry_always_hide)
next
  case False
  then show ?thesis
    using assms by (auto simp: handle_option_def split: if_splits)
qed

lemma getopt_loop_always_hide:
  "getopt_loop lc opts st = Inr st' \<Longrightarrow>
     always_hide st' = (always_hide st \<or> CHR ''a'' \<in> set (map fst opts))"
proof (induction opts arbitrary: st)
  case Nil
  then show ?case by simp
next
  case (Cons o1 opts)
  obtain ch optarg where o1: "o1 = (ch, optarg)" by (cases o1)
  from Cons.prems o1 obtain st1 where 1: "handle_option lc ch optarg st = Inr st1"
    and 2: "getopt_loop lc opts st1 = Inr st'"
    by (auto split: sum.splits)
  show ?case
    using Cons.IH [OF 2] handle_option_always_hide [OF 1] o1 by auto
qed

lemma snoop_evdev_always_hide:
  "always_hide (snoop_evdev wd ds st) = always_hide st"
  by (induction ds arbitrary: st) (simp_all add: add_device_other)

lemma main_start_always_hide:
  assumes "main_start lc bt wd opts = Inr st" and "CHR ''a'' \<in> set (map fst opts)"
  shows "always_hide st \<and> hiding st"
proof -
  from assms(1) obtain st0 where g: "getopt_loop lc opts init_state = Inr st0"
    by (auto simp: main_start_def split: sum.splits)
  have a0: "always_hide st0"
    using getopt_loop_always_hide [OF g] assms(2) by simp
  define st1 where "st1 = st0\<lparr>mod_map := get_mod_map (modmap bt)\<rparr>"
  define st2 where "st2 = (if timeout st1 \<noteq> 0
                              then st1\<lparr>idler_counter := find_idletime (counters bt)\<rparr>
                              else st1)"
  define st3 where "st3 = snoop_evdev wd (dev_input bt) st2"
  have a3: "always_hide st3"
    using a0 by (simp add: st3_def st2_def st1_def snoop_evdev_always_hide)
  have "st = (if always_hide st3 then hide_cursor wd st3 else st3)"
    using assms(1) g
    by (simp add: main_start_def Let_def st3_def st2_def st1_def split: if_splits)
  then have "st = hide_cursor wd st3" using a3 by simp
  then show ?thesis
    using a3 by (simp add: hide_cursor_frame hide_cursor_hiding)
qed

lemma hide_cursor_flag:
  "hide_cursor wd (st\<lparr>always_hide := b\<rparr>) = (hide_cursor wd st)\<lparr>always_hide := b\<rparr>"
proof -
  define mt3 where "mt3 mv a w h cx cy cm =
      move_target mv a w h
        (init_state\<lparr>move_custom_x := cx, move_custom_y := cy, move_custom_mask := cm\<rparr>)"
    for mv a w h cx cy cm
  have mt: "move_target mv a w h s =
              mt3 mv a w h (move_custom_x s) (move_custom_y s) (move_custom_mask s)"
    for mv a w h s
    unfolding mt3_def by (rule move_target_custom) simp_all
  show ?thesis
    by (simp add: hide_cursor_def hide_move_def hide_no_pointer_def xsend_def Let_def
        case_prod_beta mt split: option.splits)
qed

lemma keyboard_event_flag:
  "keyboard_event wd ev (st\<lparr>always_hide := b\<rparr>) = (keyboard_event wd ev st)\<lparr>always_hide := b\<rparr>"
proof -
  have sw: "st\<lparr>always_hide := b, xlog := l, current_keystrokes := c\<rparr> =
            st\<lparr>xlog := l, current_keystrokes := c\<rparr>\<lparr>always_hide := b\<rparr>" for l c
    by (cases st) simp
  show ?thesis
    by (simp add: keyboard_event_def xsend_def Let_def)
      (simp only: sw hide_cursor_flag, simp)
qed

text \<open>
  C7. In the always-hide mode (\<^verbatim>\<open>-a\<close>) no event read from a pointer, motion or press,
  calls \<^verbatim>\<open>show_cursor\<close>: the handler leaves the state as it is. So whatever events the loop
  receives, a hidden cursor stays hidden and no show-cursor request is ever sent. A start
  with \<^verbatim>\<open>-a\<close> among the options ends with the cursor hidden. The keyboard handler and the
  alarm handler do not read the flag: they act as without \<^verbatim>\<open>-a\<close>, a press that reaches
  the threshold and an idle alarm (with a timeout configured) call \<^verbatim>\<open>hide_cursor\<close>, after
  which the cursor is hidden.
\<close>

theorem always_hide_never_reveals:
  "(always_hide st \<longrightarrow> mouse_event wd ev st = st) \<and>
   (always_hide st \<and> hiding st \<longrightarrow>
      hiding (main_loop es st) \<and> always_hide (main_loop es st)) \<and>
   (always_hide st \<and> XFixesShowCursor \<notin> set (xlog st) \<longrightarrow>
      XFixesShowCursor \<notin> set (xlog (main_loop es st))) \<and>
   (main_start lc bt wd opts = Inr st0 \<and> CHR ''a'' \<in> set (map fst opts) \<longrightarrow>
      always_hide st0 \<and> hiding st0) \<and>
   keyboard_event wd ev (st\<lparr>always_hide := b\<rparr>) = (keyboard_event wd ev st)\<lparr>always_hide := b\<rparr> \<and>
   handle_event wd (X_event alarm_notify) (st\<lparr>always_hide := b\<rparr>) =
     (handle_event wd (X_event alarm_notify) st)\<lparr>always_hide := b\<rparr> \<and>
   (timeout st \<noteq> 0 \<longrightarrow> hiding (handle_event wd (X_event True) st)) \<and>
   (unat (ev_type ev) = EV_KEY \<and> ev_value ev = 1 \<and>
    \<not> ignore_keystroke (mod_map st) (ignored st) (keys_return wd) \<and>
    keystroke_count st \<le>s current_keystrokes st + 1 \<longrightarrow>
      hiding (keyboard_event wd ev st))"
proof -
  have a: "always_hide st \<longrightarrow> mouse_event wd ev st = st"
    by (simp add: mouse_event_always_hide)
  have b: "always_hide st \<and> hiding st \<longrightarrow>
      hiding (main_loop es st) \<and> always_hide (main_loop es st)"
    by (simp add: main_loop_always_hide)
  have c: "always_hide st \<and> XFixesShowCursor \<notin> set (xlog st) \<longrightarrow>
      XFixesShowCursor \<notin> set (xlog (main_loop es st))"
    by (simp add: main_loop_always_hide)
  have d: "main_start lc bt wd opts = Inr st0 \<and> CHR ''a'' \<in> set (map fst opts) \<longrightarrow>
      always_hide st0 \<and> hiding st0"
    using main_start_always_hide by blast
  have e: "keyboard_event wd ev (st\<lparr>always_hide := b\<rparr>) =
      (keyboard_event wd ev st)\<lparr>always_hide := b\<rparr>"
    by (rule keyboard_event_flag)
  have f: "handle_event wd (X_event alarm_notify) (st\<lparr>always_hide := b\<rparr>) =
     (handle_event wd (X_event alarm_notify) st)\<lparr>always_hide := b\<rparr>"
    by (simp add: hide_cursor_flag)
  have g: "timeout st \<noteq> 0 \<longrightarrow> hiding (handle_event wd (X_event True) st)"
    by (simp add: hide_cursor_hiding)
  have h: "unat (ev_type ev) = EV_KEY \<and> ev_value ev = 1 \<and>
    \<not> ignore_keystroke (mod_map st) (ignored st) (keys_return wd) \<and>
    keystroke_count st \<le>s current_keystrokes st + 1 \<longrightarrow>
      hiding (keyboard_event wd ev st)"
    by (simp add: keyboard_event_def Let_def xsend_def hide_cursor_hiding)
  from a b c d e f g h show ?thesis by blast
qed

text \<open>A start with \<^verbatim>\<open>-a\<close> alone, then a motion, a click and a key press.\<close>

lemma ex_probe_simps:
  "probe ex_world = ex_probe"
  by (simp add: ex_world_def)

lemma ex_add_event0:
  "keyboards st = [] \<Longrightarrow> mice st = [] \<Longrightarrow>
   add_device ex_world ''/dev/input/event0'' st =
     (5, st\<lparr>keyboards := [(5, ''/dev/input/event0'')]\<rparr>)"
  by (simp add: add_device_def ex_probe_simps ex_probe_def keyboard_test_def
      test_bit_def ioctl_fill_def EV_KEY_def EV_MAX_def KEY_MAX_def KEY_SPACE_def
      MAX_INPUT_DEVICES_def Let_def)

lemma ex_add_event1:
  "keyboards st = [(5, ''/dev/input/event0'')] \<Longrightarrow> mice st = [] \<Longrightarrow>
   add_device ex_world ''/dev/input/event1'' st =
     (6, st\<lparr>mice := [(6, ''/dev/input/event1'')]\<rparr>)"
  by (simp add: add_device_def ex_probe_simps ex_probe_def keyboard_test_def mouse_test_def
      test_bit_def ioctl_fill_def EV_KEY_def EV_REL_def EV_ABS_def EV_MAX_def KEY_MAX_def
      KEY_SPACE_def BTN_MOUSE_def BTN_TOUCH_def MAX_INPUT_DEVICES_def Let_def)


lemma ex_snoop:
  assumes "keyboards st = []" and "mice st = []"
  shows "snoop_evdev ex_world [''by-id'', ''event0'', ''event1'', ''mice''] st =
           st\<lparr>keyboards := [(5, ''/dev/input/event0'')], mice := [(6, ''/dev/input/event1'')]\<rparr>"
proof -
  let ?st1 = "st\<lparr>keyboards := [(5, ''/dev/input/event0'')]\<rparr>"
  have 0: "add_device ex_world ''/dev/input/event0'' st = (5, ?st1)"
    using assms by (rule ex_add_event0)
  have 1: "add_device ex_world ''/dev/input/event1'' ?st1 =
             (6, ?st1\<lparr>mice := [(6, ''/dev/input/event1'')]\<rparr>)"
    by (rule ex_add_event1) (simp_all add: assms)
  show ?thesis
    by (simp add: 0 1)
qed

lemma ex_getopt_a:
  "getopt_loop ex_libc [(CHR ''a'', [])] init_state = Inr (init_state\<lparr>always_hide := True\<rparr>)"
  by (simp add: handle_option_def)

lemma ex_start:
  "main_start ex_libc ex_boot ex_world [(CHR ''a'', [])] = Inr ex_always_state"
proof -
  let ?st1 = "init_state\<lparr>always_hide := True, mod_map := get_mod_map ex_modmap\<rparr>"
  have s: "snoop_evdev ex_world (dev_input ex_boot) ?st1 =
      ?st1\<lparr>keyboards := [(5, ''/dev/input/event0'')], mice := [(6, ''/dev/input/event1'')]\<rparr>"
    unfolding ex_boot_def by (simp only: boot.simps, rule ex_snoop) (simp_all add: init_state_def)
  have t: "timeout ?st1 = 0" "modmap ex_boot = ex_modmap" "display_ok ex_boot"
    by (simp_all add: init_state_def ex_boot_def)
  have h: "hide_cursor ex_world
      (?st1\<lparr>keyboards := [(5, ''/dev/input/event0'')], mice := [(6, ''/dev/input/event1'')]\<rparr>) =
      ex_always_state"
    by (simp add: hide_cursor_def hide_move_def xsend_def Let_def init_state_def ex_world_def
        ex_always_state_def ex_state_def)
  show ?thesis
    unfolding main_start_def ex_getopt_a
    by (simp only: sum.case Let_def t s h state.simps if_True if_False simp_thms) simp
qed


theorem always_hide_never_reveals_witness:
  "main_start ex_libc ex_boot ex_world [(CHR ''a'', [])] = Inr ex_always_state \<and>
   hiding ex_always_state \<and>
   mouse_event (pointer_at 300 300) ex_motion ex_always_state = ex_always_state \<and>
   hiding (main_loop [(pointer_at 300 300, Mouse_read ex_motion),
                      (pointer_at 300 300, Mouse_read ex_click),
                      (pointer_at 300 300, Keyboard_read ex_press)] ex_always_state) \<and>
   XFixesShowCursor \<notin> set (xlog (main_loop [(pointer_at 300 300, Mouse_read ex_motion),
                      (pointer_at 300 300, Mouse_read ex_click),
                      (pointer_at 300 300, Keyboard_read ex_press)] ex_always_state))"
proof -
  let ?es = "[(pointer_at 300 300, Mouse_read ex_motion),
              (pointer_at 300 300, Mouse_read ex_click),
              (pointer_at 300 300, Keyboard_read ex_press)]"
  have a: "always_hide ex_always_state" "hiding ex_always_state"
    "XFixesShowCursor \<notin> set (xlog ex_always_state)"
    by (simp_all add: ex_always_state_def)
  have b: "CHR ''a'' \<in> set (map fst [(CHR ''a'', [])])"
    by simp
  note inst = always_hide_never_reveals [where st = ex_always_state
      and wd = "pointer_at 300 300" and ev = ex_motion and es = ?es]
  have 1: "mouse_event (pointer_at 300 300) ex_motion ex_always_state = ex_always_state"
    using inst [THEN conjunct1] a(1) by (rule mp)
  have 2: "hiding (main_loop ?es ex_always_state)"
    using inst [THEN conjunct2, THEN conjunct1] a(1,2) by simp
  have 3: "XFixesShowCursor \<notin> set (xlog (main_loop ?es ex_always_state))"
    using inst [THEN conjunct2, THEN conjunct2, THEN conjunct1] a(1,3) by simp
  have 4: "hiding ex_always_state"
    using always_hide_never_reveals [where lc = ex_libc and bt = ex_boot and wd = ex_world
        and opts = "[(CHR ''a'', [])]" and ?st0.0 = ex_always_state,
        THEN conjunct2, THEN conjunct2, THEN conjunct2, THEN conjunct1] ex_start b
    by simp
  from ex_start 4 1 2 3 show ?thesis by (intro conjI)
qed

subsection \<open>Device registry\<close>

lemma add_device_registered:
  assumes "path \<in> set (map snd (keyboards st)) \<or> path \<in> set (map snd (mice st))"
  shows "add_device wd path st = (0, st)"
  using assms by (auto simp: add_device_def)

lemma add_device_cases:
  "snd (add_device wd path st) = st \<or>
   (path \<notin> set (map snd (keyboards st)) \<and> path \<notin> set (map snd (mice st)) \<and>
    (snd (add_device wd path st) =
       st\<lparr>keyboards := keyboards st @ [(open_fd (probe wd path), path)]\<rparr> \<or>
     snd (add_device wd path st) =
       st\<lparr>mice := mice st @ [(open_fd (probe wd path), path)]\<rparr>))"
  by (simp add: add_device_def Let_def split: option.splits)

lemma add_device_distinct:
  assumes "distinct (map snd (keyboards st) @ map snd (mice st))"
  shows "distinct (map snd (keyboards (snd (add_device wd path st))) @
                   map snd (mice (snd (add_device wd path st))))"
proof -
  consider "snd (add_device wd path st) = st"
    | "path \<notin> set (map snd (keyboards st))" "path \<notin> set (map snd (mice st))"
      "snd (add_device wd path st) =
         st\<lparr>keyboards := keyboards st @ [(open_fd (probe wd path), path)]\<rparr>"
    | "path \<notin> set (map snd (keyboards st))" "path \<notin> set (map snd (mice st))"
      "snd (add_device wd path st) =
         st\<lparr>mice := mice st @ [(open_fd (probe wd path), path)]\<rparr>"
    using add_device_cases [of wd path st] by blast
  then show ?thesis
  proof cases
    case 1
    then show ?thesis using assms by simp
  next
    case 2
    then show ?thesis using assms by (simp only: 2(3)) auto
  next
    case 3
    then show ?thesis using assms by (simp only: 3(3)) auto
  qed
qed

lemma count_list_distinct: "distinct xs \<Longrightarrow> x \<in> set xs \<Longrightarrow> count_list xs x = 1"
  by (induction xs) (auto simp: count_list_0_iff)

text \<open>
  C8. For a path that is registered already, as a keyboard or as a pointer, \<^verbatim>\<open>add_device\<close>
  returns 0 and leaves the whole state as it is. So when the path is registered after a
  first call, a second call changes nothing and the registry holds the path exactly once.
\<close>

theorem add_device_twice:
  "(path \<in> set (map snd (keyboards st)) \<or> path \<in> set (map snd (mice st)) \<longrightarrow>
      add_device wd path st = (0, st)) \<and>
   (distinct (map snd (keyboards st) @ map snd (mice st)) \<and>
    st1 = snd (add_device wd path st) \<and> st2 = snd (add_device wd' path st1) \<and>
    (path \<in> set (map snd (keyboards st1)) \<or> path \<in> set (map snd (mice st1))) \<longrightarrow>
      add_device wd' path st1 = (0, st1) \<and>
      count_list (map snd (keyboards st2) @ map snd (mice st2)) path = 1)"
proof (intro conjI impI)
  assume "path \<in> set (map snd (keyboards st)) \<or> path \<in> set (map snd (mice st))"
  then show "add_device wd path st = (0, st)" by (rule add_device_registered)
next
  assume h: "distinct (map snd (keyboards st) @ map snd (mice st)) \<and>
    st1 = snd (add_device wd path st) \<and> st2 = snd (add_device wd' path st1) \<and>
    (path \<in> set (map snd (keyboards st1)) \<or> path \<in> set (map snd (mice st1)))"
  then have r: "add_device wd' path st1 = (0, st1)"
    by (intro add_device_registered) (elim conjE)
  have d: "distinct (map snd (keyboards st1) @ map snd (mice st1))"
    using h add_device_distinct by blast
  have "st2 = st1" using h r by simp
  then have c: "count_list (map snd (keyboards st2) @ map snd (mice st2)) path = 1"
    using d h by (intro count_list_distinct) auto
  show "add_device wd' path st1 = (0, st1)" by (rule r)
  show "count_list (map snd (keyboards st2) @ map snd (mice st2)) path = 1" by (rule c)
qed

text \<open>The two nodes registered at the start are refused; adding \<^verbatim>\<open>event0\<close> twice to an empty
  registry leaves it there once.\<close>

theorem add_device_twice_witness:
  "add_device ex_world ''/dev/input/event0'' ex_always_state = (0, ex_always_state) \<and>
   add_device ex_world ''/dev/input/event1'' ex_always_state = (0, ex_always_state) \<and>
   count_list
     (map snd (keyboards (snd (add_device ex_world ''/dev/input/event0''
                            (snd (add_device ex_world ''/dev/input/event0'' ex_state))))) @
      map snd (mice (snd (add_device ex_world ''/dev/input/event0''
                            (snd (add_device ex_world ''/dev/input/event0'' ex_state))))))
     ''/dev/input/event0'' = 1"
proof -
  have a: "''/dev/input/event0'' \<in> set (map snd (keyboards ex_always_state)) \<or>
           ''/dev/input/event0'' \<in> set (map snd (mice ex_always_state))"
    and b: "''/dev/input/event1'' \<in> set (map snd (keyboards ex_always_state)) \<or>
           ''/dev/input/event1'' \<in> set (map snd (mice ex_always_state))"
    by (simp_all add: ex_always_state_def)
  let ?st1 = "snd (add_device ex_world ''/dev/input/event0'' ex_state)"
  have e: "keyboards ex_state = []" "mice ex_state = []"
    by (simp_all add: ex_state_def init_state_def)
  have c: "distinct (map snd (keyboards ex_state) @ map snd (mice ex_state)) \<and>
      ?st1 = snd (add_device ex_world ''/dev/input/event0'' ex_state) \<and>
      snd (add_device ex_world ''/dev/input/event0'' ?st1) =
        snd (add_device ex_world ''/dev/input/event0'' ?st1) \<and>
      (''/dev/input/event0'' \<in> set (map snd (keyboards ?st1)) \<or>
       ''/dev/input/event0'' \<in> set (map snd (mice ?st1)))"
    by (simp add: ex_add_event0 [OF e] e)
  have 1: "add_device ex_world ''/dev/input/event0'' ex_always_state = (0, ex_always_state)"
    by (rule add_device_twice [where path = "''/dev/input/event0''" and st = ex_always_state
        and wd = ex_world, THEN conjunct1, rule_format, OF a])
  have 2: "add_device ex_world ''/dev/input/event1'' ex_always_state = (0, ex_always_state)"
    by (rule add_device_twice [where path = "''/dev/input/event1''" and st = ex_always_state
        and wd = ex_world, THEN conjunct1, rule_format, OF b])
  note 3 = add_device_twice [where path = "''/dev/input/event0''" and st = ex_state
        and wd = ex_world and wd' = ex_world and ?st1.0 = ?st1
        and ?st2.0 = "snd (add_device ex_world ''/dev/input/event0'' ?st1)",
        THEN conjunct2, rule_format, OF c, THEN conjunct2]
  from 1 2 3 show ?thesis by (intro conjI)
qed

subsection \<open>Classification\<close>

lemma remove_path_subset: "set (remove_path path ds) \<subseteq> set ds"
  by (induction ds) auto

lemma remove_path_distinct:
  "distinct (map snd ds) \<Longrightarrow> distinct (map snd (remove_path path ds))"
proof (induction ds)
  case Nil
  then show ?case by simp
next
  case (Cons d ds)
  then show ?case
    using remove_path_subset [of path ds] by (auto simp: image_iff)
qed

lemma remove_device_registry_ok:
  assumes "registry_ok st"
  shows "registry_ok (remove_device path st)"
proof -
  have k: "distinct (map snd (remove_path path (keyboards st)))"
    and m: "distinct (map snd (remove_path path (mice st)))"
    using assms by (simp_all add: registry_ok_def remove_path_distinct)
  note sub = remove_path_subset [THEN subsetD]
  show ?thesis
    using assms k m
    by (auto simp: registry_ok_def remove_device_def dest!: sub)
qed

lemma add_device_registry_ok: "registry_ok st \<Longrightarrow> registry_ok (snd (add_device wd path st))"
  unfolding registry_ok_def by (rule add_device_distinct)

lemma show_cursor_registry:
  "keyboards (show_cursor wd st) = keyboards st"
  "mice (show_cursor wd st) = mice st"
  by (auto simp: show_cursor_def show_reveal_def set_alarm_eq xsend_def Let_def
      split: option.splits)

lemma keyboard_event_registry:
  "keyboards (keyboard_event wd ev st) = keyboards st"
  "mice (keyboard_event wd ev st) = mice st"
  by (simp_all add: keyboard_event_def Let_def xsend_def hide_cursor_frame)

lemma handle_event_registry_ok:
  "registry_ok st \<Longrightarrow> registry_ok (handle_event wd e st)"
proof (induction wd e st rule: handle_event.induct)
  case (1 wd alarm_notify st)
  then show ?case by (simp add: registry_ok_def hide_cursor_frame)
next
  case (2 wd action path st)
  then show ?case
    by (simp add: add_device_registry_ok remove_device_registry_ok)
next
  case (4 wd ev st)
  then show ?case by (simp add: registry_ok_def keyboard_event_registry)
next
  case (5 wd ev st)
  then show ?case by (simp add: registry_ok_def mouse_event_def show_cursor_registry)
qed simp_all

lemma main_loop_registry_ok: "registry_ok st \<Longrightarrow> registry_ok (main_loop es st)"
  by (induction es arbitrary: st) (auto simp: handle_event_registry_ok)

text \<open>
  C9 (amended). A device that is not registered yet, opens, and passes both the keyboard
  test (key events and the space key) and the pointer test (relative or absolute motion
  and a mouse button or touch key) is registered as a keyboard as long as fewer than 64
  keyboards are registered. With 64 keyboards registered the keyboard branch is skipped
  and the device is registered as a pointer, when fewer than 64 pointers are registered,
  and not at all otherwise. No call registers a device under both roles: the paths of the
  registry stay distinct, through \<^verbatim>\<open>add_device\<close> and through every event of the loop.
\<close>

theorem both_tests_keyboard_first:
  "(path \<notin> set (map snd (keyboards st)) \<and> path \<notin> set (map snd (mice st)) \<and>
    0 \<le> open_fd (probe wd path) \<and>
    ev_bits_reply (probe wd path) = Some eb \<and> key_bits_reply (probe wd path) = Some kb \<and>
    test_bit EV_KEY (ioctl_fill (EV_MAX div 64 + 1) eb) \<and>
    test_bit KEY_SPACE (ioctl_fill (KEY_MAX div 64 + 1) kb) \<and>
    (test_bit EV_REL (ioctl_fill (EV_MAX div 64 + 1) eb) \<or>
     test_bit EV_ABS (ioctl_fill (EV_MAX div 64 + 1) eb)) \<and>
    (test_bit BTN_MOUSE (ioctl_fill (KEY_MAX div 64 + 1) kb) \<or>
     test_bit BTN_TOUCH (ioctl_fill (KEY_MAX div 64 + 1) kb)) \<longrightarrow>
      (length (keyboards st) < MAX_INPUT_DEVICES \<longrightarrow>
         add_device wd path st =
           (open_fd (probe wd path),
            st\<lparr>keyboards := keyboards st @ [(open_fd (probe wd path), path)]\<rparr>)) \<and>
      (MAX_INPUT_DEVICES \<le> length (keyboards st) \<and> length (mice st) < MAX_INPUT_DEVICES \<longrightarrow>
         add_device wd path st =
           (open_fd (probe wd path),
            st\<lparr>mice := mice st @ [(open_fd (probe wd path), path)]\<rparr>)) \<and>
      (MAX_INPUT_DEVICES \<le> length (keyboards st) \<and> MAX_INPUT_DEVICES \<le> length (mice st) \<longrightarrow>
         add_device wd path st = (0, st))) \<and>
   (registry_ok s \<longrightarrow>
      registry_ok (snd (add_device wd' path' s)) \<and> registry_ok (main_loop es s))"
proof (intro conjI impI)
  assume h: "path \<notin> set (map snd (keyboards st)) \<and> path \<notin> set (map snd (mice st)) \<and>
    0 \<le> open_fd (probe wd path) \<and>
    ev_bits_reply (probe wd path) = Some eb \<and> key_bits_reply (probe wd path) = Some kb \<and>
    test_bit EV_KEY (ioctl_fill (EV_MAX div 64 + 1) eb) \<and>
    test_bit KEY_SPACE (ioctl_fill (KEY_MAX div 64 + 1) kb) \<and>
    (test_bit EV_REL (ioctl_fill (EV_MAX div 64 + 1) eb) \<or>
     test_bit EV_ABS (ioctl_fill (EV_MAX div 64 + 1) eb)) \<and>
    (test_bit BTN_MOUSE (ioctl_fill (KEY_MAX div 64 + 1) kb) \<or>
     test_bit BTN_TOUCH (ioctl_fill (KEY_MAX div 64 + 1) kb))"
  have eq: "add_device wd path st =
      (if length (keyboards st) < MAX_INPUT_DEVICES
       then (open_fd (probe wd path),
             st\<lparr>keyboards := keyboards st @ [(open_fd (probe wd path), path)]\<rparr>)
       else if length (mice st) < MAX_INPUT_DEVICES
       then (open_fd (probe wd path), st\<lparr>mice := mice st @ [(open_fd (probe wd path), path)]\<rparr>)
       else (0, st))"
    using h by (simp add: add_device_def Let_def keyboard_test_def mouse_test_def)
  show "add_device wd path st =
           (open_fd (probe wd path),
            st\<lparr>keyboards := keyboards st @ [(open_fd (probe wd path), path)]\<rparr>)"
    if "length (keyboards st) < MAX_INPUT_DEVICES"
    using that by (simp add: eq)
  show "add_device wd path st =
           (open_fd (probe wd path),
            st\<lparr>mice := mice st @ [(open_fd (probe wd path), path)]\<rparr>)"
    if "MAX_INPUT_DEVICES \<le> length (keyboards st) \<and> length (mice st) < MAX_INPUT_DEVICES"
    using that by (simp add: eq)
  show "add_device wd path st = (0, st)"
    if "MAX_INPUT_DEVICES \<le> length (keyboards st) \<and> MAX_INPUT_DEVICES \<le> length (mice st)"
    using that by (simp add: eq)
next
  assume "registry_ok s"
  then show "registry_ok (snd (add_device wd' path' s))"
    by (rule add_device_registry_ok)
next
  assume "registry_ok s"
  then show "registry_ok (main_loop es s)"
    by (rule main_loop_registry_ok)
qed

text \<open>The node \<^verbatim>\<open>event2\<close> passes both tests; with an empty registry it becomes a keyboard.\<close>

lemma ex_event2:
  "probe ex_world ''/dev/input/event2'' =
     \<lparr> open_fd = 7, ev_bits_reply = Some [15],
       key_bits_reply = Some [push_bit 57 1, 0, 0, 0, push_bit 16 1, 0, 0, 0, 0, 0, 0, 0] \<rparr>"
  by (simp add: ex_probe_simps ex_probe_def)

lemma ex_event2_tests:
  "test_bit EV_KEY (ioctl_fill (EV_MAX div 64 + 1) [15])"
  "test_bit EV_REL (ioctl_fill (EV_MAX div 64 + 1) [15])"
  "test_bit KEY_SPACE (ioctl_fill (KEY_MAX div 64 + 1)
      [push_bit 57 1, 0, 0, 0, push_bit 16 1, 0, 0, 0, 0, 0, 0, 0])"
  "test_bit BTN_MOUSE (ioctl_fill (KEY_MAX div 64 + 1)
      [push_bit 57 1, 0, 0, 0, push_bit 16 1, 0, 0, 0, 0, 0, 0, 0])"
  by (simp_all add: test_bit_def ioctl_fill_def EV_KEY_def EV_REL_def EV_MAX_def KEY_MAX_def
      KEY_SPACE_def BTN_MOUSE_def)

lemma ex_full_paths:
  "p \<in> set (map snd (keyboards ex_full_state)) \<Longrightarrow> length p = 18"
  by (auto simp: ex_full_state_def)

lemma ex_full_length: "length (keyboards ex_full_state) = 64" "mice ex_full_state = []"
  by (simp_all add: ex_full_state_def ex_state_def init_state_def)

lemma ex_event2_new: "''/dev/input/event2'' \<notin> set (map snd (keyboards ex_full_state))"
  using ex_full_paths [of "''/dev/input/event2''"] by auto

theorem both_tests_keyboard_first_witness:
  "add_device ex_world ''/dev/input/event2'' ex_state =
     (7, ex_state\<lparr>keyboards := [(7, ''/dev/input/event2'')]\<rparr>) \<and>
   registry_ok (snd (add_device ex_world ''/dev/input/event2'' ex_state))"
proof -
  have e: "keyboards ex_state = []" "mice ex_state = []"
    by (simp_all add: ex_state_def init_state_def)
  have h: "''/dev/input/event2'' \<notin> set (map snd (keyboards ex_state)) \<and>
    ''/dev/input/event2'' \<notin> set (map snd (mice ex_state)) \<and>
    0 \<le> open_fd (probe ex_world ''/dev/input/event2'') \<and>
    ev_bits_reply (probe ex_world ''/dev/input/event2'') = Some [15] \<and>
    key_bits_reply (probe ex_world ''/dev/input/event2'') =
      Some [push_bit 57 1, 0, 0, 0, push_bit 16 1, 0, 0, 0, 0, 0, 0, 0] \<and>
    test_bit EV_KEY (ioctl_fill (EV_MAX div 64 + 1) [15]) \<and>
    test_bit KEY_SPACE (ioctl_fill (KEY_MAX div 64 + 1)
      [push_bit 57 1, 0, 0, 0, push_bit 16 1, 0, 0, 0, 0, 0, 0, 0]) \<and>
    (test_bit EV_REL (ioctl_fill (EV_MAX div 64 + 1) [15]) \<or>
     test_bit EV_ABS (ioctl_fill (EV_MAX div 64 + 1) [15])) \<and>
    (test_bit BTN_MOUSE (ioctl_fill (KEY_MAX div 64 + 1)
      [push_bit 57 1, 0, 0, 0, push_bit 16 1, 0, 0, 0, 0, 0, 0, 0]) \<or>
     test_bit BTN_TOUCH (ioctl_fill (KEY_MAX div 64 + 1)
      [push_bit 57 1, 0, 0, 0, push_bit 16 1, 0, 0, 0, 0, 0, 0, 0]))"
    using ex_event2_tests by (simp add: e ex_event2)
  have l: "length (keyboards ex_state) < MAX_INPUT_DEVICES"
    by (simp add: e MAX_INPUT_DEVICES_def)
  have r: "registry_ok ex_state"
    by (simp add: registry_ok_def e)
  note inst = both_tests_keyboard_first [where path = "''/dev/input/event2''" and st = ex_state
      and wd = ex_world and s = ex_state and wd' = ex_world and path' = "''/dev/input/event2''"
      and es = "[]"]
  have 1: "add_device ex_world ''/dev/input/event2'' ex_state =
     (7, ex_state\<lparr>keyboards := [(7, ''/dev/input/event2'')]\<rparr>)"
    using inst [THEN conjunct1, rule_format, OF h, THEN conjunct1, rule_format, OF l]
    by (simp add: ex_event2 e)
  have 2: "registry_ok (snd (add_device ex_world ''/dev/input/event2'' ex_state))"
    using inst [THEN conjunct2, rule_format, OF r] by simp
  from 1 2 show ?thesis by (intro conjI)
qed

lemma ex_full_registry_ok: "registry_ok ex_full_state"
proof -
  have "inj_on (\<lambda>n::nat. ''/dev/input/event'' @ [char_of (48 + n div 10), char_of (48 + n mod 10)])
          {10 ..< 74}"
  proof (rule inj_onI)
    fix n m :: nat
    assume n: "n \<in> {10 ..< 74}" and m: "m \<in> {10 ..< 74}"
      and eq: "''/dev/input/event'' @ [char_of (48 + n div 10), char_of (48 + n mod 10)] =
               ''/dev/input/event'' @ [char_of (48 + m div 10), char_of (48 + m mod 10)]"
    have b: "48 + n div 10 < 256" "48 + m div 10 < 256" "48 + n mod 10 < 256"
      "48 + m mod 10 < 256"
      using n m by auto
    from eq have "(48 + n div 10) mod 256 = (48 + m div 10) mod 256"
      by simp
    then have d: "n div 10 = m div 10"
      using b by simp
    from eq have "(48 + n mod 10) mod 256 = (48 + m mod 10) mod 256"
      by simp
    then have "n mod 10 = m mod 10"
      using b by simp
    with d have "n div 10 = m div 10 \<and> n mod 10 = m mod 10" ..
    then show "n = m"
      by (metis div_mult_mod_eq)
  qed
  then have "distinct (map snd (keyboards ex_full_state))"
    by (simp add: ex_full_state_def distinct_map comp_def)
  then show ?thesis
    by (simp add: registry_ok_def ex_full_length)
qed

text \<open>
  The claim as the specification words it fails when 64 keyboards are registered: the
  node \<^verbatim>\<open>event2\<close>, which passes both tests, is registered as a pointer.
\<close>

theorem both_tests_keyboard_first_counterexample:
  "registry_ok ex_full_state \<and> length (keyboards ex_full_state) = 64 \<and>
   ev_bits_reply (probe ex_world ''/dev/input/event2'') = Some [15] \<and>
   key_bits_reply (probe ex_world ''/dev/input/event2'') =
     Some [push_bit 57 1, 0, 0, 0, push_bit 16 1, 0, 0, 0, 0, 0, 0, 0] \<and>
   test_bit EV_KEY (ioctl_fill (EV_MAX div 64 + 1) [15]) \<and>
   test_bit KEY_SPACE (ioctl_fill (KEY_MAX div 64 + 1)
      [push_bit 57 1, 0, 0, 0, push_bit 16 1, 0, 0, 0, 0, 0, 0, 0]) \<and>
   test_bit EV_REL (ioctl_fill (EV_MAX div 64 + 1) [15]) \<and>
   test_bit BTN_MOUSE (ioctl_fill (KEY_MAX div 64 + 1)
      [push_bit 57 1, 0, 0, 0, push_bit 16 1, 0, 0, 0, 0, 0, 0, 0]) \<and>
   add_device ex_world ''/dev/input/event2'' ex_full_state =
     (7, ex_full_state\<lparr>mice := [(7, ''/dev/input/event2'')]\<rparr>)"
proof -
  have a: "add_device ex_world ''/dev/input/event2'' ex_full_state =
     (7, ex_full_state\<lparr>mice := [(7, ''/dev/input/event2'')]\<rparr>)"
    using ex_event2_new ex_event2_tests
    by (simp add: add_device_def ex_event2 ex_full_length keyboard_test_def mouse_test_def
        MAX_INPUT_DEVICES_def Let_def del: set_map)
  show ?thesis
    using a ex_event2_tests ex_full_registry_ok by (simp add: ex_full_length ex_event2)
qed

subsection \<open>Reachable states\<close>

lemma parse_geometry_frame:
  assumes "parse_geometry lc s st = Some st'"
  shows "hide_x st' = hide_x st" "hide_y st' = hide_y st"
    "keyboards st' = keyboards st" "mice st' = mice st"
  using assms by (auto simp: parse_geometry_def split: prod.splits if_splits)

lemma handle_option_frame:
  assumes "handle_option lc ch optarg st = Inr st'"
  shows "hide_x st' = hide_x st \<and> hide_y st' = hide_y st \<and>
         keyboards st' = keyboards st \<and> mice st' = mice st"
proof (cases "ch = CHR ''m''")
  case True
  then show ?thesis
    using assms
    by (auto simp: handle_option_def split: if_splits option.splits
        dest: parse_geometry_frame)
next
  case False
  then show ?thesis
    using assms by (auto simp: handle_option_def split: if_splits)
qed

lemma getopt_loop_frame:
  "getopt_loop lc opts st = Inr st' \<Longrightarrow>
     hide_x st' = hide_x st \<and> hide_y st' = hide_y st \<and>
     keyboards st' = keyboards st \<and> mice st' = mice st"
proof (induction opts arbitrary: st)
  case Nil
  then show ?case by simp
next
  case (Cons o1 opts)
  obtain ch optarg where o1: "o1 = (ch, optarg)" by (cases o1)
  from Cons.prems o1 obtain st1 where 1: "handle_option lc ch optarg st = Inr st1"
    and 2: "getopt_loop lc opts st1 = Inr st'"
    by (auto split: sum.splits)
  show ?case
    using Cons.IH [OF 2] handle_option_frame [OF 1] by simp
qed

lemma snoop_evdev_invariants:
  "origin_in_range st \<Longrightarrow> origin_in_range (snoop_evdev wd ds st)"
  "registry_ok st \<Longrightarrow> registry_ok (snoop_evdev wd ds st)"
proof (induction ds arbitrary: st)
  case Nil
  {
    case 1
    then show ?case by simp
  next
    case 2
    then show ?case by simp
  }
next
  case (Cons d ds)
  {
    case 1
    have "origin_in_range (snd (add_device wd p st))" for p
      using 1 by (subst add_device_frame) (simp only: origin_in_range_registry)
    then show ?case using 1 Cons.IH(1) by simp
  next
    case 2
    then show ?case using Cons.IH(2) by (simp add: add_device_registry_ok)
  }
qed

text \<open>Every state the program reaches has its hide origin in range and distinct paths.\<close>

lemma main_start_invariants:
  assumes "main_start lc bt wd opts = Inr st"
  shows "origin_in_range st" and "registry_ok st"
proof -
  from assms obtain st0 where g: "getopt_loop lc opts init_state = Inr st0"
    by (auto simp: main_start_def split: sum.splits)
  have f: "hide_x st0 = 0" "hide_y st0 = 0" "keyboards st0 = []" "mice st0 = []"
    using getopt_loop_frame [OF g] by (simp_all add: init_state_def)
  define st1 where "st1 = st0\<lparr>mod_map := get_mod_map (modmap bt)\<rparr>"
  define st2 where "st2 = (if timeout st1 \<noteq> 0
                              then st1\<lparr>idler_counter := find_idletime (counters bt)\<rparr>
                              else st1)"
  define st3 where "st3 = snoop_evdev wd (dev_input bt) st2"
  have i2: "origin_in_range st2" "registry_ok st2"
    using f by (simp_all add: st2_def st1_def origin_in_range_def registry_ok_def)
  have i3: "origin_in_range st3" "registry_ok st3"
    using i2 by (simp_all add: st3_def snoop_evdev_invariants)
  have "st = (if always_hide st3 then hide_cursor wd st3 else st3)"
    using assms g
    by (simp add: main_start_def Let_def st3_def st2_def st1_def split: if_splits)
  then show "origin_in_range st" and "registry_ok st"
    using i3 by (auto simp: origin_in_range_hide_cursor registry_ok_def hide_cursor_frame)
qed

lemma reachable_invariants:
  assumes "main_start lc bt wd opts = Inr st"
  shows "origin_in_range (main_loop es st)" and "registry_ok (main_loop es st)"
  using main_start_invariants [OF assms]
  by (simp_all add: origin_in_range_main_loop main_loop_registry_ok)

subsection \<open>The hide request at the threshold\<close>

lemma hide_cursor_requests:
  "count_list (xlog (hide_cursor wd st)) XFixesHideCursor =
     count_list (xlog st) XFixesHideCursor + (if hiding st then 0 else 1)"
  "count_list (xlog (hide_cursor wd st)) XFixesShowCursor =
     count_list (xlog st) XFixesShowCursor"
  by (auto simp: hide_cursor_def hide_move_def hide_no_pointer_def xsend_def Let_def
      split: option.splits prod.splits)

lemma hide_cursor_last_requests:
  "\<not> hiding st \<Longrightarrow> \<exists>pre. xlog (hide_cursor wd st) = pre @ [XFixesHideCursor, XFlush]"
  by (simp add: hide_cursor_def xsend_def Let_def)

lemma keyboard_event_requests:
  "hiding st \<Longrightarrow> hiding (keyboard_event wd ev st)"
  "count_list (xlog (keyboard_event wd ev st)) XFixesHideCursor =
     count_list (xlog st) XFixesHideCursor +
     (if hiding (keyboard_event wd ev st) \<and> \<not> hiding st then 1 else 0)"
  "count_list (xlog (keyboard_event wd ev st)) XFixesShowCursor =
     count_list (xlog st) XFixesShowCursor"
  by (simp_all add: keyboard_event_def Let_def xsend_def hide_cursor_requests
      hide_cursor_hiding)

lemma keyboard_event_last_requests:
  assumes "\<not> hiding st" and "hiding (keyboard_event wd ev st)"
  shows "\<exists>pre. xlog (keyboard_event wd ev st) = pre @ [XFixesHideCursor, XFlush]"
proof -
  define st2 where
    "st2 = (xsend [XQueryKeymap] st)\<lparr>current_keystrokes := current_keystrokes st + 1\<rparr>"
  have n: "\<not> hiding st2" "\<not> hiding (xsend [XQueryKeymap] st)"
    using assms(1) by (simp_all add: st2_def xsend_def)
  have "keyboard_event wd ev st = hide_cursor wd st2"
    using assms n
    by (auto simp: keyboard_event_def Let_def st2_def xsend_def split: if_splits)
  then show ?thesis
    using hide_cursor_last_requests [OF n(1)] by simp
qed

lemma keyboard_loop_requests:
  "(hiding st \<longrightarrow> hiding (main_loop (map (\<lambda>(wd, ev). (wd, Keyboard_read ev)) ps) st)) \<and>
   count_list (xlog (main_loop (map (\<lambda>(wd, ev). (wd, Keyboard_read ev)) ps) st))
       XFixesHideCursor =
     count_list (xlog st) XFixesHideCursor +
     (if hiding (main_loop (map (\<lambda>(wd, ev). (wd, Keyboard_read ev)) ps) st) \<and> \<not> hiding st
      then 1 else 0) \<and>
   count_list (xlog (main_loop (map (\<lambda>(wd, ev). (wd, Keyboard_read ev)) ps) st))
       XFixesShowCursor =
     count_list (xlog st) XFixesShowCursor"
proof (induction ps arbitrary: st)
  case Nil
  then show ?case by simp
next
  case (Cons p ps)
  obtain wd ev where p: "p = (wd, ev)" by (cases p)
  define s1 where "s1 = keyboard_event wd ev st"
  define f where "f = main_loop (map (\<lambda>(wd, ev). (wd, Keyboard_read ev)) ps) s1"
  have e: "main_loop (map (\<lambda>(wd, ev). (wd, Keyboard_read ev)) (p # ps)) st = f"
    by (simp add: p f_def s1_def)
  have ih: "hiding s1 \<longrightarrow> hiding f"
    "count_list (xlog f) XFixesHideCursor =
       count_list (xlog s1) XFixesHideCursor + (if hiding f \<and> \<not> hiding s1 then 1 else 0)"
    "count_list (xlog f) XFixesShowCursor = count_list (xlog s1) XFixesShowCursor"
    using Cons.IH [of s1] unfolding f_def by blast+
  have k: "hiding st \<longrightarrow> hiding s1"
    "count_list (xlog s1) XFixesHideCursor =
       count_list (xlog st) XFixesHideCursor + (if hiding s1 \<and> \<not> hiding st then 1 else 0)"
    "count_list (xlog s1) XFixesShowCursor = count_list (xlog st) XFixesShowCursor"
    unfolding s1_def by (simp_all add: keyboard_event_requests)
  show ?case
    unfolding e
    by (cases "hiding st"; cases "hiding s1"; cases "hiding f") (use ih k in simp_all)
qed

lemma main_loop_append: "main_loop (es @ fs) st = main_loop fs (main_loop es st)"
  by (induction es arbitrary: st) auto

text \<open>
  C1. From a visible cursor and a counter at 0 (as \<^verbatim>\<open>show_cursor\<close> and the start leave it),
  after the first \<open>j\<close> of any presses made with no ignored modifier held, the cursor is
  hidden exactly when \<open>j\<close> has reached the threshold \<^verbatim>\<open>keystroke_count\<close> (and at least one
  key was pressed). Hidden means the flag and the request: up to there the presses have
  sent one \<^verbatim>\<open>XFixesHideCursor\<close> when the threshold is reached and none before, the press that
  reaches it ends with that request and the flush, and no show request is sent. The
  threshold starts at 1.
\<close>

theorem hidden_exactly_at_threshold:
  assumes "\<not> hiding st" and "current_keystrokes st = 0"
    and "\<forall>(wd, ev) \<in> set ps. unat (ev_type ev) = EV_KEY \<and> ev_value ev = 1 \<and>
             \<not> ignore_keystroke (mod_map st) (ignored st) (keys_return wd)"
    and "j \<le> length ps"
    and "st' = main_loop (map (\<lambda>(wd, ev). (wd, Keyboard_read ev)) (take j ps)) st"
  shows "keystroke_count init_state = 1 \<and>
         hiding st' = (0 < j \<and> sint (keystroke_count st) \<le> int j) \<and>
         count_list (xlog st') XFixesHideCursor =
           count_list (xlog st) XFixesHideCursor +
           (if 0 < j \<and> sint (keystroke_count st) \<le> int j then 1 else 0) \<and>
         count_list (xlog st') XFixesShowCursor = count_list (xlog st) XFixesShowCursor \<and>
         (0 < j \<and> sint (keystroke_count st) \<le> int j \<and>
          \<not> (0 < j - 1 \<and> sint (keystroke_count st) \<le> int (j - 1)) \<longrightarrow>
            (\<exists>pre. xlog st' = pre @ [XFixesHideCursor, XFlush]))"
proof -
  let ?run = "\<lambda>k. main_loop (map (\<lambda>(wd, ev). (wd, Keyboard_read ev)) (take k ps)) st"
  have flag: "hiding (?run k) = (0 < k \<and> sint (keystroke_count st) \<le> int k)"
    if "k \<le> length ps" for k
  proof -
    have sub: "\<forall>(wd, ev) \<in> set (take k ps). unat (ev_type ev) = EV_KEY \<and> ev_value ev = 1 \<and>
             \<not> ignore_keystroke (mod_map st) (ignored st) (keys_return wd)"
      using assms(3) by (meson in_set_takeD)
    have "hiding (?run k) =
          (0 < 0 + length (take k ps) \<and>
           sint (keystroke_count st) \<le> int (0 + length (take k ps)))"
      by (rule presses_invariant [OF sub]) (use assms in simp_all)
    then show ?thesis using that by (simp add: min_absorb2)
  qed
  have h: "hiding st' = (0 < j \<and> sint (keystroke_count st) \<le> int j)"
    using flag [OF assms(4)] assms(5) by simp
  note req = keyboard_loop_requests [where st = st and ps = "take j ps"]
  have c: "count_list (xlog st') XFixesHideCursor =
           count_list (xlog st) XFixesHideCursor +
           (if 0 < j \<and> sint (keystroke_count st) \<le> int j then 1 else 0)"
    using req h assms(1,5) by simp
  have s: "count_list (xlog st') XFixesShowCursor = count_list (xlog st) XFixesShowCursor"
    using req assms(5) by simp
  have l: "\<exists>pre. xlog st' = pre @ [XFixesHideCursor, XFlush]"
    if t: "0 < j \<and> sint (keystroke_count st) \<le> int j \<and>
          \<not> (0 < j - 1 \<and> sint (keystroke_count st) \<le> int (j - 1))"
  proof -
    from t assms(4) have j1: "j - 1 < length ps" "j - 1 \<le> length ps" by linarith+
    obtain wd ev where p: "ps ! (j - 1) = (wd, ev)" by (cases "ps ! (j - 1)")
    have tk: "take j ps = take (j - 1) ps @ [(wd, ev)]"
      using take_Suc_conv_app_nth [OF j1(1)] t p by simp
    have before: "\<not> hiding (?run (j - 1))"
      using flag [OF j1(2)] t by simp
    define s0 where "s0 = ?run (j - 1)"
    define s2 where
      "s2 = (xsend [XQueryKeymap] s0)\<lparr>current_keystrokes := current_keystrokes s0 + 1\<rparr>"
    have n: "\<not> hiding s0" "\<not> hiding (xsend [XQueryKeymap] s0)" "\<not> hiding s2"
      using before by (simp_all add: s0_def s2_def xsend_def)
    have k: "st' = keyboard_event wd ev s0"
      using assms(5) by (simp add: tk main_loop_append s0_def)
    have "hiding (keyboard_event wd ev s0)"
      using h t k by simp
    then have "keyboard_event wd ev s0 = hide_cursor wd s2"
      using n by (auto simp: keyboard_event_def Let_def s2_def xsend_def split: if_splits)
    then have "xlog st' = xlog (hide_cursor wd s2)"
      using k by simp
    also have "\<exists>pre. xlog (hide_cursor wd s2) = pre @ [XFixesHideCursor, XFlush]"
      using n(3) by (simp add: hide_cursor_def xsend_def Let_def)
    finally show ?thesis .
  qed
  from h c s l show ?thesis by (simp add: init_state_def)
qed

text \<open>With the threshold 3, two presses leave the cursor visible and send no hide request;
  the third hides it: three keymap queries, then the pointer query, the hide request and
  the flush.\<close>

theorem hidden_exactly_at_threshold_witness:
  "\<not> hiding (main_loop (map (\<lambda>(wd, ev). (wd, Keyboard_read ev))
        (take 2 (replicate 3 (ex_world, ex_press)))) (ex_state\<lparr>keystroke_count := 3\<rparr>)) \<and>
   count_list (xlog (main_loop (map (\<lambda>(wd, ev). (wd, Keyboard_read ev))
        (take 2 (replicate 3 (ex_world, ex_press)))) (ex_state\<lparr>keystroke_count := 3\<rparr>)))
     XFixesHideCursor = 0 \<and>
   hiding (main_loop (map (\<lambda>(wd, ev). (wd, Keyboard_read ev))
        (take 3 (replicate 3 (ex_world, ex_press)))) (ex_state\<lparr>keystroke_count := 3\<rparr>)) \<and>
   count_list (xlog (main_loop (map (\<lambda>(wd, ev). (wd, Keyboard_read ev))
        (take 3 (replicate 3 (ex_world, ex_press)))) (ex_state\<lparr>keystroke_count := 3\<rparr>)))
     XFixesHideCursor = 1 \<and>
   xlog (main_loop (map (\<lambda>(wd, ev). (wd, Keyboard_read ev))
        (take 3 (replicate 3 (ex_world, ex_press)))) (ex_state\<lparr>keystroke_count := 3\<rparr>)) =
     [XQueryKeymap, XQueryKeymap, XQueryKeymap, XQueryPointer, XFixesHideCursor, XFlush]"
proof -
  let ?st = "ex_state\<lparr>keystroke_count := 3\<rparr>"
  let ?ps = "replicate 3 (ex_world, ex_press)"
  have a: "\<not> hiding ?st" "current_keystrokes ?st = 0"
    by (simp_all add: ex_state_def init_state_def)
  have b: "\<forall>(wd, ev) \<in> set ?ps. unat (ev_type ev) = EV_KEY \<and> ev_value ev = 1 \<and>
             \<not> ignore_keystroke (mod_map ?st) (ignored ?st) (keys_return wd)"
    by (simp add: ex_press_def EV_KEY_def ex_state_def ex_world_def ex_not_ignored)
  have c: "(2::nat) \<le> length ?ps" "(3::nat) \<le> length ?ps" by simp_all
  have x: "xlog ?st = []" "keystroke_count ?st = 3"
    by (simp_all add: ex_state_def init_state_def)
  note two = hidden_exactly_at_threshold [OF a b c(1) refl]
  note three = hidden_exactly_at_threshold [OF a b c(2) refl]
  have 1: "\<not> hiding (main_loop (map (\<lambda>(wd, ev). (wd, Keyboard_read ev)) (take 2 ?ps)) ?st)"
    using two x by simp
  have 2: "count_list (xlog (main_loop (map (\<lambda>(wd, ev). (wd, Keyboard_read ev)) (take 2 ?ps))
        ?st)) XFixesHideCursor = 0"
    using two [THEN conjunct2, THEN conjunct2, THEN conjunct1] x by simp
  have 3: "hiding (main_loop (map (\<lambda>(wd, ev). (wd, Keyboard_read ev)) (take 3 ?ps)) ?st)"
    using three [THEN conjunct2, THEN conjunct1] x by simp
  have 4: "count_list (xlog (main_loop (map (\<lambda>(wd, ev). (wd, Keyboard_read ev)) (take 3 ?ps))
        ?st)) XFixesHideCursor = 1"
    using three [THEN conjunct2, THEN conjunct2, THEN conjunct1] x by simp
  have 5: "xlog (main_loop (map (\<lambda>(wd, ev). (wd, Keyboard_read ev)) (take 3 ?ps)) ?st) =
     [XQueryKeymap, XQueryKeymap, XQueryKeymap, XQueryPointer, XFixesHideCursor, XFlush]"
    by (simp add: numeral_3_eq_3 keyboard_event_def ex_press_def EV_KEY_def xsend_def
        ex_state_def init_state_def ex_world_def ex_not_ignored hide_cursor_def hide_move_def
        Let_def word_sle_eq)
  from 1 2 3 4 5 show ?thesis by (intro conjI)
qed

subsection \<open>Jitter and pointer motion\<close>

text \<open>
  C2 (amended). Outside the always-hide mode, with a jitter threshold J > 0 and the
  cursor hidden, a motion event read from a pointer calls \<^verbatim>\<open>show_cursor\<close>. When the pointer
  is found at (cur_x, cur_y) with |cur_x - hide_x| < J and |cur_y - hide_y| < J, the
  cursor stays hidden and the call ends early: beyond the reset of the counter and the
  alarm of a configured timeout it sends the pointer query and nothing else. When one
  of the two distances is J or more the cursor is revealed: after the pointer query come
  the warp back of a move policy, the request \<^verbatim>\<open>XFixesShowCursor\<close> and the flush, and the
  flag is cleared. The hide origin is in the range of the protocol's coordinates.
\<close>

theorem jitter_keeps_hidden:
  assumes "hiding st" and "0 <s jitter st" and "origin_in_range st"
    and "pointer wd = Some r" and "same_screen r"
    and "\<not> always_hide st"
    and "unat (ev_type ev) = EV_REL \<or> unat (ev_type ev) = EV_ABS"
    and "near = (\<bar>sint (root_x r) - sint (hide_x st)\<bar> < sint (jitter st) \<and>
                 \<bar>sint (root_y r) - sint (hide_y st)\<bar> < sint (jitter st))"
    and "s2 = (if timeout st \<noteq> 0 then set_alarm wd (st\<lparr>current_keystrokes := 0\<rparr>)
               else st\<lparr>current_keystrokes := 0\<rparr>)"
  shows "mouse_event wd ev st = show_cursor wd st \<and>
         hiding (mouse_event wd ev st) = near \<and>
         (near \<longrightarrow> mouse_event wd ev st = s2\<lparr>xlog := xlog s2 @ [XQueryPointer]\<rparr>) \<and>
         (\<not> near \<longrightarrow> mouse_event wd ev st =
            s2\<lparr>hiding := False,
               xlog := xlog s2 @ [XQueryPointer] @
                 (if move st \<noteq> None \<and> move_x st \<noteq> - 1 \<and> move_y st \<noteq> - 1
                  then [XWarpPointer (move_x st) (move_y st)] else []) @
                 [XFixesShowCursor, XFlush]\<rparr>)"
proof -
  have e: "mouse_event wd ev st = show_cursor wd st"
    using assms(6,7) by (auto simp: mouse_event_def)
  have j: "jitter st \<noteq> 0" using assms(2) by auto
  have x: "sint (c_abs (scast (root_x r) - hide_x st)) = \<bar>sint (root_x r) - sint (hide_x st)\<bar>"
    using assms(3) by (intro c_abs_diff) (simp_all add: origin_in_range_def)
  have y: "sint (c_abs (scast (root_y r) - hide_y st)) = \<bar>sint (root_y r) - sint (hide_y st)\<bar>"
    using assms(3) by (intro c_abs_diff) (simp_all add: origin_in_range_def)
  have f: "hiding s2" "jitter s2 = jitter st" "hide_x s2 = hide_x st" "hide_y s2 = hide_y st"
    "move s2 = move st" "move_x s2 = move_x st" "move_y s2 = move_y st"
    using assms(1) by (simp_all add: assms(9) set_alarm_frame)
  have c: "(c_abs (scast (root_x r) - hide_x st) <s jitter st \<and>
            c_abs (scast (root_y r) - hide_y st) <s jitter st) = near"
    by (simp add: word_sless_alt x y assms(8))
  let ?s3 = "s2\<lparr>xlog := xlog s2 @ [XQueryPointer]\<rparr>"
  have sc: "show_cursor wd st = (if near then ?s3 else show_reveal ?s3)"
    using assms(4,5) j f c
    by (simp add: show_cursor_def Let_def assms(9) [symmetric] xsend_def
        del: One_nat_def)
  have r: "show_reveal ?s3 =
            s2\<lparr>hiding := False,
               xlog := xlog s2 @ [XQueryPointer] @
                 (if move st \<noteq> None \<and> move_x st \<noteq> - 1 \<and> move_y st \<noteq> - 1
                  then [XWarpPointer (move_x st) (move_y st)] else []) @
                 [XFixesShowCursor, XFlush]\<rparr>"
    using f(5,6,7) by (cases s2) (auto simp: show_reveal_def xsend_def Let_def)
  have h: "hiding (show_cursor wd st) = near"
    using f(1) by (simp add: sc r)
  show ?thesis
    using e sc r h by simp
qed


text \<open>With J = 5 and the cursor hidden at (100, 100): a motion to (102, 103) leaves it
  hidden, a motion to (100, 110) reveals it.\<close>

theorem jitter_keeps_hidden_witness:
  "mouse_event (pointer_at 102 103) ex_motion (hide_cursor ex_world (ex_state\<lparr>jitter := 5\<rparr>)) =
     ex_state\<lparr>jitter := 5, hiding := True, hide_x := 100, hide_y := 100,
       xlog := [XQueryPointer, XFixesHideCursor, XFlush, XQueryPointer]\<rparr> \<and>
   mouse_event (pointer_at 100 110) ex_motion (hide_cursor ex_world (ex_state\<lparr>jitter := 5\<rparr>)) =
     ex_state\<lparr>jitter := 5, hiding := False, hide_x := 100, hide_y := 100,
       xlog := [XQueryPointer, XFixesHideCursor, XFlush, XQueryPointer,
                XFixesShowCursor, XFlush]\<rparr>"
proof -
  let ?st = "hide_cursor ex_world (ex_state\<lparr>jitter := 5\<rparr>)"
  have a: "hiding ?st" "0 <s jitter ?st" "origin_in_range ?st"
    by (simp_all add: ex_hidden_jitter origin_in_range_def word_sless_alt)
  have b: "pointer (pointer_at 102 103) = Some \<lparr> same_screen = True, child = 4194305,
                                                  root_x = 102, root_y = 103 \<rparr>"
    "pointer (pointer_at 100 110) = Some \<lparr> same_screen = True, child = 4194305,
                                                  root_x = 100, root_y = 110 \<rparr>"
    by (simp_all add: pointer_at_def)
  have s: "same_screen \<lparr> same_screen = True, child = 4194305, root_x = 102, root_y = 103 \<rparr>"
    "same_screen \<lparr> same_screen = True, child = 4194305, root_x = 100, root_y = 110 \<rparr>"
    by simp_all
  have c: "\<not> always_hide ?st"
    "unat (ev_type ex_motion) = EV_REL \<or> unat (ev_type ex_motion) = EV_ABS"
    by (simp_all add: ex_hidden_jitter ex_motion_def EV_REL_def)
      (simp add: ex_state_def init_state_def)
  have t: "timeout ?st = 0" "move ?st = None" "jitter ?st = 5" "hide_x ?st = 100"
    "hide_y ?st = 100"
    by (simp_all add: ex_hidden_jitter) (simp_all add: ex_state_def init_state_def)
  note near = jitter_keeps_hidden [OF a b(1) s(1) c refl refl]
  note far = jitter_keeps_hidden [OF a b(2) s(2) c refl refl]
  have 1: "mouse_event (pointer_at 102 103) ex_motion ?st =
     ex_state\<lparr>jitter := 5, hiding := True, hide_x := 100, hide_y := 100,
       xlog := [XQueryPointer, XFixesHideCursor, XFlush, XQueryPointer]\<rparr>"
    using near [THEN conjunct2, THEN conjunct2, THEN conjunct1] t
    by (simp add: ex_hidden_jitter) (simp add: ex_state_def init_state_def)
  have 2: "mouse_event (pointer_at 100 110) ex_motion ?st =
     ex_state\<lparr>jitter := 5, hiding := False, hide_x := 100, hide_y := 100,
       xlog := [XQueryPointer, XFixesHideCursor, XFlush, XQueryPointer,
                XFixesShowCursor, XFlush]\<rparr>"
    using far [THEN conjunct2, THEN conjunct2, THEN conjunct2] t
    by (simp add: ex_hidden_jitter) (simp add: ex_state_def init_state_def)
  from 1 2 show ?thesis by (rule conjI)
qed

text \<open>
  The claim as the specification words it fails in the always-hide mode. After a start
  with \<^verbatim>\<open>-a -j 5\<close> the cursor is hidden at (100, 100); a motion to (100, 110), ten pixels
  away, does not reveal it: the event leaves the state as it is.
\<close>

lemma ex_getopt_a_j:
  "getopt_loop ex_libc5 [(CHR ''a'', []), (CHR ''j'', ''5'')] init_state =
     Inr (init_state\<lparr>always_hide := True, jitter := 5\<rparr>)"
  by (simp add: handle_option_def ex_libc5_def)

lemma ex_start_a_j:
  "main_start ex_libc5 ex_boot ex_world [(CHR ''a'', []), (CHR ''j'', ''5'')] =
     Inr ex_always_jitter"
proof -
  let ?st1 = "init_state\<lparr>always_hide := True, jitter := 5, mod_map := get_mod_map ex_modmap\<rparr>"
  have s: "snoop_evdev ex_world (dev_input ex_boot) ?st1 =
      ?st1\<lparr>keyboards := [(5, ''/dev/input/event0'')], mice := [(6, ''/dev/input/event1'')]\<rparr>"
    unfolding ex_boot_def by (simp only: boot.simps, rule ex_snoop) (simp_all add: init_state_def)
  have t: "timeout ?st1 = 0" "modmap ex_boot = ex_modmap" "display_ok ex_boot"
    by (simp_all add: init_state_def ex_boot_def)
  have h: "hide_cursor ex_world
      (?st1\<lparr>keyboards := [(5, ''/dev/input/event0'')], mice := [(6, ''/dev/input/event1'')]\<rparr>) =
      ex_always_jitter"
    by (simp add: hide_cursor_def hide_move_def xsend_def Let_def init_state_def ex_world_def
        ex_always_jitter_def ex_always_state_def ex_state_def)
  show ?thesis
    unfolding main_start_def ex_getopt_a_j
    by (simp only: sum.case Let_def t s h state.simps if_True if_False simp_thms) simp
qed

theorem jitter_keeps_hidden_counterexample:
  "main_start ex_libc5 ex_boot ex_world [(CHR ''a'', []), (CHR ''j'', ''5'')] =
     Inr ex_always_jitter \<and>
   hiding ex_always_jitter \<and> jitter ex_always_jitter = 5 \<and>
   hide_x ex_always_jitter = 100 \<and> hide_y ex_always_jitter = 100 \<and>
   pointer (pointer_at 100 110) =
     Some \<lparr> same_screen = True, child = 4194305, root_x = 100, root_y = 110 \<rparr> \<and>
   unat (ev_type ex_motion) = EV_REL \<and>
   mouse_event (pointer_at 100 110) ex_motion ex_always_jitter = ex_always_jitter"
  by (simp add: ex_start_a_j)
    (simp add: ex_always_jitter_def ex_always_state_def pointer_at_def ex_motion_def
      EV_REL_def mouse_event_def)

subsection \<open>The option \<^verbatim>\<open>-i all\<close>\<close>

lemma mod_masks_nth_all:
  assumes "i < 8"
  shows "(mod_masks ! i AND NOT Mod2Mask \<noteq> 0) = (i \<noteq> 4)"
proof -
  from assms have "i = 0 \<or> i = 1 \<or> i = 2 \<or> i = 3 \<or> i = 4 \<or> i = 5 \<or> i = 6 \<or> i = 7"
    by linarith
  then show ?thesis
    by (elim disjE)
      (simp_all add: mod_masks_def ShiftMask_def LockMask_def ControlMask_def Mod1Mask_def
        Mod2Mask_def Mod3Mask_def Mod4Mask_def Mod5Mask_def)
qed

lemma ignore_keystroke_get_mod_map:
  "ignore_keystroke (get_mod_map mm) ign keys =
     (\<exists>i<8. mod_masks ! i AND ign \<noteq> 0 \<and>
        (\<exists>j<max_keypermod mm.
           modifiermap mm ! (i * max_keypermod mm + j) \<noteq> 0 \<and>
           key_down keys (modifiermap mm ! (i * max_keypermod mm + j))))"
  unfolding ignore_keystroke_iff by (auto simp: get_mod_map_def Bex_def)

lemma ignore_keystroke_all:
  "ignore_keystroke (get_mod_map mm) (NOT Mod2Mask) keys =
     (\<exists>i<8. i \<noteq> 4 \<and>
        (\<exists>j<max_keypermod mm.
           modifiermap mm ! (i * max_keypermod mm + j) \<noteq> 0 \<and>
           key_down keys (modifiermap mm ! (i * max_keypermod mm + j))))"
  unfolding ignore_keystroke_get_mod_map using mod_masks_nth_all by blast

lemma opt_i_all_word: "strcasecmp_eq optarg ''all'' \<Longrightarrow> opt_i optarg ign = NOT Mod2Mask"
  by (simp add: opt_i_all)

lemma snoop_evdev_filter:
  "mod_map (snoop_evdev wd ds st) = mod_map st"
  "ignored (snoop_evdev wd ds st) = ignored st"
proof (induction ds arbitrary: st)
  case Nil
  {
    case 1
    show ?case by simp
  next
    case 2
    show ?case by simp
  }
next
  case (Cons d ds)
  have a: "mod_map (snd (add_device wd p st)) = mod_map st"
    "ignored (snd (add_device wd p st)) = ignored st" for p st
    by (subst add_device_frame, simp)+
  {
    case 1
    show ?case using Cons.IH(1) a by simp
  next
    case 2
    show ?case using Cons.IH(2) a by simp
  }
qed

lemma main_start_filter:
  assumes "main_start lc bt wd opts = Inr s" and "getopt_loop lc opts init_state = Inr s0"
  shows "ignored s = ignored s0 \<and> mod_map s = get_mod_map (modmap bt)"
proof -
  define st1 where "st1 = s0\<lparr>mod_map := get_mod_map (modmap bt)\<rparr>"
  define st2 where "st2 = (if timeout st1 \<noteq> 0
                              then st1\<lparr>idler_counter := find_idletime (counters bt)\<rparr>
                              else st1)"
  define st3 where "st3 = snoop_evdev wd (dev_input bt) st2"
  have f: "ignored st3 = ignored s0" "mod_map st3 = get_mod_map (modmap bt)"
    by (simp_all add: st3_def st2_def st1_def snoop_evdev_filter)
  have "s = (if always_hide st3 then hide_cursor wd st3 else st3)"
    using assms
    by (simp add: main_start_def Let_def st3_def st2_def st1_def split: if_splits)
  then show ?thesis
    using f by (simp add: hide_cursor_frame)
qed

text \<open>
  C5 (amended). Passing "all" to \<^verbatim>\<open>-i\<close> (in any letter case) sets the variable \<^verbatim>\<open>ignored\<close>
  to the word with every bit set but the bit of Mod2, the numeric-lock modifier
  (0xFFFFFFEF), whatever it held before. On the eight modifier bits that is their union
  without Mod2: each of the eight masks but Mod2's is selected. The start keeps that
  value and builds the modifier map of the server. With them a key press is suppressed
  (it sends the keymap query and changes nothing else, the counter included) exactly
  when a key bound to one of the seven modifiers other than Mod2 is held; any other
  press is counted and hides the cursor at the threshold.
\<close>

theorem ignore_all_excludes_mod2:
  assumes "strcasecmp_eq optarg ''all''"
  shows "handle_option lc (CHR ''i'') optarg st = Inr (st\<lparr>ignored := NOT Mod2Mask\<rparr>) \<and>
         getopt_loop lc ((CHR ''i'', optarg) # rest) st =
           getopt_loop lc rest (st\<lparr>ignored := NOT Mod2Mask\<rparr>) \<and>
         (NOT Mod2Mask :: 32 word) = 4294967279 \<and>
         (NOT Mod2Mask :: 32 word) AND
           (ShiftMask OR LockMask OR ControlMask OR Mod1Mask OR Mod2Mask OR
            Mod3Mask OR Mod4Mask OR Mod5Mask)
           = (ShiftMask OR LockMask OR ControlMask OR Mod1Mask OR Mod2Mask OR
              Mod3Mask OR Mod4Mask OR Mod5Mask) AND NOT Mod2Mask \<and>
         (\<forall>m \<in> set mod_masks. (m AND NOT Mod2Mask \<noteq> 0) = (m \<noteq> Mod2Mask)) \<and>
         (main_start lc bt wd0 opts = Inr s \<and> getopt_loop lc opts init_state = Inr s0 \<longrightarrow>
            ignored s = ignored s0 \<and> mod_map s = get_mod_map (modmap bt)) \<and>
         (ignored s = NOT Mod2Mask \<and> mod_map s = get_mod_map mm \<and>
          unat (ev_type ev) = EV_KEY \<and> ev_value ev = 1 \<longrightarrow>
            keyboard_event wd ev s =
              (if \<exists>i<8. i \<noteq> 4 \<and>
                    (\<exists>j<max_keypermod mm.
                       modifiermap mm ! (i * max_keypermod mm + j) \<noteq> 0 \<and>
                       key_down (keys_return wd) (modifiermap mm ! (i * max_keypermod mm + j)))
               then s\<lparr>xlog := xlog s @ [XQueryKeymap]\<rparr>
               else (let s2 = s\<lparr>xlog := xlog s @ [XQueryKeymap],
                                 current_keystrokes := current_keystrokes s + 1\<rparr>
                     in if keystroke_count s \<le>s current_keystrokes s + 1
                        then hide_cursor wd s2 else s2)))"
proof -
  have o: "opt_i optarg ign = NOT Mod2Mask" for ign
    using assms by (rule opt_i_all_word)
  have a: "handle_option lc (CHR ''i'') optarg st = Inr (st\<lparr>ignored := NOT Mod2Mask\<rparr>)"
    by (simp add: handle_option_def o)
  have b: "getopt_loop lc ((CHR ''i'', optarg) # rest) st =
           getopt_loop lc rest (st\<lparr>ignored := NOT Mod2Mask\<rparr>)"
    by (simp add: a)
  have c: "(NOT Mod2Mask :: 32 word) = 4294967279"
    by (simp add: Mod2Mask_def)
  have d: "(NOT Mod2Mask :: 32 word) AND
           (ShiftMask OR LockMask OR ControlMask OR Mod1Mask OR Mod2Mask OR
            Mod3Mask OR Mod4Mask OR Mod5Mask)
           = (ShiftMask OR LockMask OR ControlMask OR Mod1Mask OR Mod2Mask OR
              Mod3Mask OR Mod4Mask OR Mod5Mask) AND NOT Mod2Mask"
    by (simp add: and.commute)
  have e: "\<forall>m \<in> set mod_masks. (m AND NOT Mod2Mask \<noteq> 0) = (m \<noteq> Mod2Mask)"
    using all_mask_bits by simp
  have f: "main_start lc bt wd0 opts = Inr s \<and> getopt_loop lc opts init_state = Inr s0 \<longrightarrow>
            ignored s = ignored s0 \<and> mod_map s = get_mod_map (modmap bt)"
    using main_start_filter by blast
  have g: "ignored s = NOT Mod2Mask \<and> mod_map s = get_mod_map mm \<and>
          unat (ev_type ev) = EV_KEY \<and> ev_value ev = 1 \<longrightarrow>
            keyboard_event wd ev s =
              (if \<exists>i<8. i \<noteq> 4 \<and>
                    (\<exists>j<max_keypermod mm.
                       modifiermap mm ! (i * max_keypermod mm + j) \<noteq> 0 \<and>
                       key_down (keys_return wd) (modifiermap mm ! (i * max_keypermod mm + j)))
               then s\<lparr>xlog := xlog s @ [XQueryKeymap]\<rparr>
               else (let s2 = s\<lparr>xlog := xlog s @ [XQueryKeymap],
                                 current_keystrokes := current_keystrokes s + 1\<rparr>
                     in if keystroke_count s \<le>s current_keystrokes s + 1
                        then hide_cursor wd s2 else s2))"
  proof
    assume h: "ignored s = NOT Mod2Mask \<and> mod_map s = get_mod_map mm \<and>
          unat (ev_type ev) = EV_KEY \<and> ev_value ev = 1"
    have i: "ignore_keystroke (mod_map s) (ignored s) (keys_return wd) =
        (\<exists>i<8. i \<noteq> 4 \<and>
                    (\<exists>j<max_keypermod mm.
                       modifiermap mm ! (i * max_keypermod mm + j) \<noteq> 0 \<and>
                       key_down (keys_return wd) (modifiermap mm ! (i * max_keypermod mm + j))))"
      using h by (simp only: ignore_keystroke_all)
    show "keyboard_event wd ev s =
              (if \<exists>i<8. i \<noteq> 4 \<and>
                    (\<exists>j<max_keypermod mm.
                       modifiermap mm ! (i * max_keypermod mm + j) \<noteq> 0 \<and>
                       key_down (keys_return wd) (modifiermap mm ! (i * max_keypermod mm + j)))
               then s\<lparr>xlog := xlog s @ [XQueryKeymap]\<rparr>
               else (let s2 = s\<lparr>xlog := xlog s @ [XQueryKeymap],
                                 current_keystrokes := current_keystrokes s + 1\<rparr>
                     in if keystroke_count s \<le>s current_keystrokes s + 1
                        then hide_cursor wd s2 else s2))"
      unfolding i [symmetric]
      using h by (simp add: keyboard_event_def xsend_def Let_def)
  qed
  from a b c d e f g show ?thesis by blast
qed


text \<open>After \<^verbatim>\<open>-i All\<close>: a press with Shift (50) held is not counted; a press with Num
  Lock (77) held is counted and, with the threshold 1, hides the cursor.\<close>

theorem ignore_all_excludes_mod2_witness:
  "handle_option ex_libc (CHR ''i'') ''All'' init_state =
     Inr (init_state\<lparr>ignored := 4294967279\<rparr>) \<and>
   keyboard_event (holding 50) ex_press ex_all_state =
     ex_all_state\<lparr>xlog := [XQueryKeymap]\<rparr> \<and>
   hiding (keyboard_event (holding 77) ex_press ex_all_state) \<and>
   current_keystrokes (keyboard_event (holding 77) ex_press ex_all_state) = 1"
proof -
  have h: "strcasecmp_eq ''All'' ''all''"
    by code_simp
  have n: "(NOT Mod2Mask :: 32 word) = 4294967279"
    by (simp add: Mod2Mask_def)
  have p: "ignored ex_all_state = NOT Mod2Mask \<and> mod_map ex_all_state = get_mod_map ex_modmap \<and>
          unat (ev_type ex_press) = EV_KEY \<and> ev_value ex_press = 1"
    by (simp add: ex_all_state_def ex_state_def n ex_press_def EV_KEY_def)
  have k50: "ignore_keystroke (get_mod_map ex_modmap) (NOT Mod2Mask) (keys_return (holding 50))"
    by (simp only: get_mod_map_ex_modmap)
      (simp add: holding_def ex_world_def key_down_def keys_with_def Mod2Mask_def)
  have k77: "\<not> ignore_keystroke (get_mod_map ex_modmap) (NOT Mod2Mask) (keys_return (holding 77))"
    by (simp only: get_mod_map_ex_modmap)
      (simp add: holding_def ex_world_def key_down_def keys_with_def Mod2Mask_def)
  note inst = ignore_all_excludes_mod2 [OF h, where lc = ex_libc and st = init_state
      and s = ex_all_state and mm = ex_modmap and ev = ex_press]
  have 1: "handle_option ex_libc (CHR ''i'') ''All'' init_state =
     Inr (init_state\<lparr>ignored := 4294967279\<rparr>)"
    using inst [THEN conjunct1] by (simp add: n)
  note ev = inst [THEN conjunct2, THEN conjunct2, THEN conjunct2, THEN conjunct2,
      THEN conjunct2, THEN conjunct2, rule_format, OF p]
  note c50 = ignore_keystroke_all [THEN iffD1, OF k50]
  note c77 = k77 [unfolded ignore_keystroke_all]
  note e50 = ev [where wd = "holding 50", unfolded if_P [OF c50]]
  note e77 = ev [where wd = "holding 77", unfolded if_not_P [OF c77]]
  have 2: "keyboard_event (holding 50) ex_press ex_all_state =
     ex_all_state\<lparr>xlog := [XQueryKeymap]\<rparr>"
    using e50 by (simp add: ex_all_state_def ex_state_def init_state_def)
  have 4: "hiding (keyboard_event (holding 77) ex_press ex_all_state)"
    using e77
    by (simp add: Let_def ex_all_state_def ex_state_def init_state_def hide_cursor_hiding)
  have 5: "current_keystrokes (keyboard_event (holding 77) ex_press ex_all_state) = 1"
    using e77
    by (simp add: Let_def ex_all_state_def ex_state_def init_state_def hide_cursor_frame)
  from 1 2 4 5 show ?thesis by (intro conjI)
qed

text \<open>
  The claim as the specification words it fails on the value of the mask: the union of
  the eight modifier bits without Mod2 is 239 (0xEF), and \<^verbatim>\<open>-i all\<close> sets 4294967279
  (0xFFFFFFEF).
\<close>

theorem ignore_all_excludes_mod2_counterexample:
  "ignored init_state = 0 \<and>
   handle_option ex_libc (CHR ''i'') ''all'' init_state =
     Inr (init_state\<lparr>ignored := 4294967279\<rparr>) \<and>
   (ShiftMask OR LockMask OR ControlMask OR Mod1Mask OR Mod2Mask OR Mod3Mask OR Mod4Mask OR
    Mod5Mask) AND NOT Mod2Mask = (239 :: 32 word)"
  by (simp add: init_state_def handle_option_def opt_i_def mods_def strcasecmp_eq_def
      tolower_def ShiftMask_def LockMask_def ControlMask_def Mod1Mask_def Mod2Mask_def
      Mod3Mask_def Mod4Mask_def Mod5Mask_def)

end
